theory Spec2Isabelle
  imports Main "HOL-Library.AList" "HOL-Library.Multiset"
    "HOL-Library.Char_ord" "HOL-Library.List_Lexorder"
begin

section \<open>Data model of \<^verbatim>\<open>authentication-service.ts\<close>\<close>

text \<open>
  The account object \<^verbatim>\<open>{label, id}\<close> carried by a token and by a session.
\<close>

record account_info =
  label :: string
  acc_id :: string

text \<open>
  \<^verbatim>\<open>interface IToken\<close>. Optional fields are options; the field \<^verbatim>\<open>refreshToken\<close> is
  called \<open>refreshTok\<close> here, the name \<open>refreshToken\<close> being kept for the method.
  \<^verbatim>\<open>expiresIn\<close> is in seconds, \<^verbatim>\<open>expiresAt\<close> in milliseconds of \<^verbatim>\<open>Date.now()\<close>.
\<close>

record IToken =
  accessToken :: "string option"
  idToken :: "string option"
  expiresIn :: "int option"
  expiresAt :: "int option"
  refreshTok :: string
  account :: account_info
  scope :: string
  sessionId :: string

text \<open>\<^verbatim>\<open>interface IResolvedToken\<close>.\<close>

record IResolvedToken =
  resolved_accessToken :: string
  resolved_idToken :: "string option"

text \<open>
  \<^verbatim>\<open>interface IStoredSession\<close>, the entry of the persisted array, and its account
  object \<^verbatim>\<open>{label?, displayName?, id}\<close>.
\<close>

record stored_account =
  stored_label :: "string option"
  stored_displayName :: "string option"
  stored_acc_id :: string

record IStoredSession =
  stored_id :: string
  stored_refreshToken :: string
  stored_scope :: string
  stored_account :: stored_account

text \<open>
  \<^verbatim>\<open>RedHatAuthenticationSession\<close>. \<^verbatim>\<open>convertToSessionSync\<close> writes \<^verbatim>\<open>token.accessToken!\<close>,
  which is \<^verbatim>\<open>undefined\<close> at run time when the token has none: the field is an option.
\<close>

record session =
  session_id :: string
  session_accessToken :: "string option"
  session_idToken :: "string option"
  session_account :: account_info
  scopes :: "string list"

text \<open>The payload of \<^verbatim>\<open>onDidChangeSessions.fire\<close>.\<close>

record change_event =
  added :: "session list"
  removed :: "session list"
  changed :: "session list"

text \<open>
  The \<^verbatim>\<open>TokenSet\<close> of the OIDC client, with the claims \<^verbatim>\<open>convertToken\<close> reads.
  \<^verbatim>\<open>convertToken\<close> asserts \<^verbatim>\<open>refresh_token!\<close> and \<^verbatim>\<open>session_state!\<close>, so both are
  plain strings here.
\<close>

record TokenSet =
  expires_in :: "int option"
  id_token :: "string option"
  access_token :: "string option"
  refresh_token :: string
  session_state :: string
  claims_sub :: string
  claims_preferred_username :: "string option"
  claims_email :: "string option"

text \<open>
  The collaborators the service calls: \<^verbatim>\<open>client.refresh\<close> of the OIDC client (its
  answer may depend on the time of the call; \<open>Inl\<close> carries the message of the error
  it rejects with), and \<^verbatim>\<open>JSON.parse\<close> / \<^verbatim>\<open>JSON.stringify\<close> at the type
  \<^verbatim>\<open>IStoredSession[]\<close> that \<^verbatim>\<open>parseStoredData\<close> declares (\<open>None\<close> is the
  \<^verbatim>\<open>SyntaxError\<close> of a malformed text).
\<close>

record env =
  client_refresh :: "int \<Rightarrow> string \<Rightarrow> string + TokenSet"
  JSON_parse :: "string \<Rightarrow> IStoredSession list option"
  JSON_stringify :: "IStoredSession list \<Rightarrow> string"

text \<open>
  The closures handed to \<^verbatim>\<open>setTimeout\<close>, with the variables they capture. A retry
  timer also carries who awaits the promise of \<^verbatim>\<open>handleRefreshNetworkError\<close>: the
  timer callback of \<^verbatim>\<open>setToken\<close> (with its token) or \<^verbatim>\<open>initialize\<close> (with the stored
  session).
\<close>

datatype awaiting = FromSetToken IToken | FromInitialize IStoredSession

datatype callback =
    ProactiveRefresh IToken string
  | RetryRefresh string string string nat awaiting
  | PollRefresh string string string

fun callback_session :: "callback \<Rightarrow> string" where
  "callback_session (ProactiveRefresh token scp) = sessionId token"
| "callback_session (RetryRefresh sid rt scp attempts aw) = sid"
| "callback_session (PollRefresh sid rt scp) = sid"

text \<open>
  The state of one \<^verbatim>\<open>RedHatAuthenticationService\<close> and of what it acts on:
  \<^item> \<open>tokens\<close> is \<^verbatim>\<open>_tokens\<close>;
  \<^item> \<open>refreshTimeouts\<close> is the map \<^verbatim>\<open>_refreshTimeouts\<close> from session id to timer handle;
  \<^item> \<open>timers\<close> are the timers armed in the runtime: handle, due time, callback;
  \<^item> \<open>nextHandle\<close> is the next handle \<^verbatim>\<open>setTimeout\<close> returns;
  \<^item> \<open>now\<close> is \<^verbatim>\<open>Date.now()\<close>;
  \<^item> \<open>keychain\<close> is the text the \<^verbatim>\<open>Keychain\<close> holds for the service, if any;
  \<^item> \<open>events\<close> is the list of events fired on \<^verbatim>\<open>onDidChangeSessions\<close>, oldest first;
  \<^item> \<open>refreshCalls\<close> is the list of calls of \<^verbatim>\<open>client.refresh\<close>, oldest first, each with
    the refresh token, the scope and the session id \<^verbatim>\<open>refreshToken\<close> was called with.
\<close>

record state =
  tokens :: "IToken list"
  refreshTimeouts :: "(string \<times> nat) list"
  timers :: "(nat \<times> int \<times> callback) list"
  nextHandle :: nat
  now :: int
  keychain :: "string option"
  events :: "change_event list"
  refreshCalls :: "(string \<times> string \<times> string) list"

section \<open>JavaScript primitives\<close>

text \<open>Truthiness of an optional string and of an optional number.\<close>

definition truthy :: "string option \<Rightarrow> bool" where
  "truthy s = (case s of None \<Rightarrow> False | Some v \<Rightarrow> v \<noteq> [])"

definition truthy_num :: "int option \<Rightarrow> bool" where
  "truthy_num n = (case n of None \<Rightarrow> False | Some v \<Rightarrow> v \<noteq> 0)"

text \<open>\<^verbatim>\<open>a || b\<close> on strings: \<open>b\<close> when \<open>a\<close> is missing or empty.\<close>

definition js_or :: "string option \<Rightarrow> string \<Rightarrow> string" where
  "js_or a b = (case a of None \<Rightarrow> b | Some v \<Rightarrow> if v = [] then b else v)"

text \<open>\<^verbatim>\<open>s.split(' ')\<close> and \<^verbatim>\<open>xs.join(' ')\<close>.\<close>

fun split_sp :: "string \<Rightarrow> string list" where
  "split_sp [] = [[]]"
| "split_sp (c # cs) =
     (if c = CHR '' '' then [] # split_sp cs
      else (case split_sp cs of [] \<Rightarrow> [[c]] | w # ws \<Rightarrow> (c # w) # ws))"

fun join_sp :: "string list \<Rightarrow> string" where
  "join_sp [] = []"
| "join_sp [x] = x"
| "join_sp (x # y # ys) = x @ '' '' @ join_sp (y # ys)"

text \<open>\<^verbatim>\<open>xs.findIndex(p)\<close>, with \<open>None\<close> for \<^verbatim>\<open>-1\<close>.\<close>

fun findIndex :: "('a \<Rightarrow> bool) \<Rightarrow> 'a list \<Rightarrow> nat option" where
  "findIndex p [] = None"
| "findIndex p (x # xs) =
     (if p x then Some 0 else map_option Suc (findIndex p xs))"

text \<open>
  \<^verbatim>\<open>setTimeout\<close> and \<^verbatim>\<open>clearTimeout\<close> of the runtime. Node sets a delay below 1 or
  above 2147483647 to 1.
\<close>

definition setTimeout :: "callback \<Rightarrow> int \<Rightarrow> state \<Rightarrow> nat \<times> state" where
  "setTimeout cb delay st =
     (nextHandle st,
      st\<lparr>timers := timers st @
            [(nextHandle st,
              now st + (if delay < 1 \<or> 2147483647 < delay then 1 else delay), cb)],
         nextHandle := Suc (nextHandle st)\<rparr>)"

definition clearTimeout :: "nat \<Rightarrow> state \<Rightarrow> state" where
  "clearTimeout h st = st\<lparr>timers := filter (\<lambda>t. fst t \<noteq> h) (timers st)\<rparr>"

text \<open>\<^verbatim>\<open>onDidChangeSessions.fire\<close>.\<close>

definition onDidChangeSessions_fire :: "change_event \<Rightarrow> state \<Rightarrow> state" where
  "onDidChangeSessions_fire ev st = st\<lparr>events := events st @ [ev]\<rparr>"

section \<open>The keychain\<close>

text \<open>
  \<^verbatim>\<open>Keychain.setToken\<close>, \<^verbatim>\<open>getToken\<close> and \<^verbatim>\<open>deleteToken\<close> on the one entry of the
  service; the store answers each call before the next statement runs.
\<close>

definition keychain_setToken :: "string \<Rightarrow> state \<Rightarrow> state" where
  "keychain_setToken token st = st\<lparr>keychain := Some token\<rparr>"

definition keychain_getToken :: "state \<Rightarrow> string option" where
  "keychain_getToken st = keychain st"

definition keychain_deleteToken :: "state \<Rightarrow> state" where
  "keychain_deleteToken st = st\<lparr>keychain := None\<rparr>"

section \<open>The authentication service\<close>

text \<open>
  The methods of \<^verbatim>\<open>RedHatAuthenticationService\<close>, as functions on the state. The service
  runs on one thread, so it is modelled by its synchronous blocks, under these readings
  of its suspensions:
  \<^item> a call of the provider or of the keychain made by a method or a timer callback is
    answered before the next event is taken;
  \<^item> where one statement starts several asynchronous closures (\<^verbatim>\<open>Promise.all\<close> over a
    \<^verbatim>\<open>map\<close>), their synchronous parts run first, in the order of the array, and the
    answers of the provider are then handled in the order of the calls;
  \<^item> the keychain does not fail; logging and the messages shown to the user are not part
    of the state;
  \<^item> a closure holds its token by value: the one field the code changes in place, the
    access token in \<^verbatim>\<open>handleRefreshNetworkError\<close>, is changed after the timer of that
    session has fired or together with its cancellation, and is not read by the retry
    and poll callbacks;
  \<^item> of \<^verbatim>\<open>createSession\<close> only what follows the code exchange is modelled; the HTTP
    listener and the browser are not. The subscription of \<^verbatim>\<open>initialize\<close> to the change
    notices of the secret store is the action \<open>SecretsChanged\<close> of a run.
\<close>

definition REFRESH_NETWORK_FAILURE :: string where
  "REFRESH_NETWORK_FAILURE = ''Network failure''"

text \<open>\<^verbatim>\<open>parseStoredData\<close>; \<open>None\<close> is the error \<^verbatim>\<open>JSON.parse\<close> throws.\<close>

definition parseStoredData :: "env \<Rightarrow> string \<Rightarrow> IStoredSession list option" where
  "parseStoredData env data = JSON_parse env data"

text \<open>\<^verbatim>\<open>storeTokenData\<close>: the entry written for one token, and the write.\<close>

definition storedSession :: "IToken \<Rightarrow> IStoredSession" where
  "storedSession token =
     \<lparr>stored_id = sessionId token,
      stored_refreshToken = refreshTok token,
      stored_scope = scope token,
      stored_account =
        \<lparr>stored_label = Some (label (account token)),
         stored_displayName = None,
         stored_acc_id = acc_id (account token)\<rparr>\<rparr>"

definition storeTokenData :: "env \<Rightarrow> state \<Rightarrow> state" where
  "storeTokenData env st =
     (let serializedData = map storedSession (tokens st)
      in keychain_setToken (JSON_stringify env serializedData) st)"

definition convertToSessionSync :: "IToken \<Rightarrow> session" where
  "convertToSessionSync token =
     \<lparr>session_id = sessionId token,
      session_accessToken = accessToken token,
      session_idToken = idToken token,
      session_account = account token,
      scopes = split_sp (scope token)\<rparr>"

definition clearSessionTimeout :: "string \<Rightarrow> state \<Rightarrow> state" where
  "clearSessionTimeout sid st =
     (case map_of (refreshTimeouts st) sid of
        None \<Rightarrow> st
      | Some timeout \<Rightarrow>
          (clearTimeout timeout st)
            \<lparr>refreshTimeouts := AList.delete sid (refreshTimeouts st)\<rparr>)"

text \<open>
  \<^verbatim>\<open>setToken\<close>: replace the entry of the same session id or append, cancel the timer of
  the session, arm the proactive refresh when \<^verbatim>\<open>expiresIn\<close> is truthy, store.
\<close>

definition setToken :: "env \<Rightarrow> IToken \<Rightarrow> string \<Rightarrow> state \<Rightarrow> state" where
  "setToken env token scp st =
     (let st1 =
            (case findIndex (\<lambda>t. sessionId t = sessionId token) (tokens st) of
               Some existingTokenIndex \<Rightarrow>
                 st\<lparr>tokens := take existingTokenIndex (tokens st) @ [token] @
                                 drop (Suc existingTokenIndex) (tokens st)\<rparr>
             | None \<Rightarrow> st\<lparr>tokens := tokens st @ [token]\<rparr>);
          st2 = clearSessionTimeout (sessionId token) st1;
          st3 =
            (case expiresIn token of
               None \<Rightarrow> st2
             | Some e \<Rightarrow>
                 if e = 0 then st2
                 else (case setTimeout (ProactiveRefresh token scp) (1000 * (e - 30)) st2 of
                         (h, st') \<Rightarrow>
                           st'\<lparr>refreshTimeouts :=
                                 AList.update (sessionId token) h (refreshTimeouts st')\<rparr>))
      in storeTokenData env st3)"

text \<open>
  \<^verbatim>\<open>convertToken\<close> at the time \<open>t\<close> of \<^verbatim>\<open>Date.now()\<close>. \<^verbatim>\<open>existingId || session_state\<close>
  takes the session state when the id is missing or empty.
\<close>

definition convertToken :: "int \<Rightarrow> TokenSet \<Rightarrow> string \<Rightarrow> string option \<Rightarrow> IToken" where
  "convertToken t tokenSet scp existingId =
     \<lparr>accessToken = access_token tokenSet,
      idToken = id_token tokenSet,
      expiresIn = expires_in tokenSet,
      expiresAt =
        (case expires_in tokenSet of
           None \<Rightarrow> None
         | Some e \<Rightarrow> if e = 0 then None else Some (t + e * 1000)),
      refreshTok = refresh_token tokenSet,
      account =
        \<lparr>label =
           js_or (claims_preferred_username tokenSet)
             (js_or (claims_email tokenSet) ''user@example.com''),
         acc_id = claims_sub tokenSet\<rparr>,
      scope = scp,
      sessionId = js_or existingId (session_state tokenSet)\<rparr>"

text \<open>
  \<^verbatim>\<open>refreshToken\<close>: the call of the provider is recorded; on success the token is
  converted and registered; every failure is rethrown as \<^verbatim>\<open>Error('Refreshing token failed')\<close>.
\<close>

definition refreshToken ::
  "env \<Rightarrow> string \<Rightarrow> string \<Rightarrow> string \<Rightarrow> state \<Rightarrow> (string + IToken) \<times> state" where
  "refreshToken env rt scp sid st =
     (let st0 = st\<lparr>refreshCalls := refreshCalls st @ [(rt, scp, sid)]\<rparr>
      in case client_refresh env (now st) rt of
           Inr refreshedToken \<Rightarrow>
             (let token = convertToken (now st) refreshedToken scp (Some sid)
              in (Inr token, setToken env token scp st0))
         | Inl error \<Rightarrow> (Inl ''Refreshing token failed'', st0))"

definition removeInMemorySessionData :: "string \<Rightarrow> state \<Rightarrow> IToken option \<times> state" where
  "removeInMemorySessionData sid st =
     (case findIndex (\<lambda>token. sessionId token = sid) (tokens st) of
        Some tokenIndex \<Rightarrow>
          (Some (tokens st ! tokenIndex),
           clearSessionTimeout sid
             (st\<lparr>tokens := take tokenIndex (tokens st) @ drop (Suc tokenIndex) (tokens st)\<rparr>))
      | None \<Rightarrow> (None, clearSessionTimeout sid st))"

definition removeSession :: "env \<Rightarrow> string \<Rightarrow> state \<Rightarrow> session option \<times> state" where
  "removeSession env sid st =
     (case removeInMemorySessionData sid st of
        (token, st1) \<Rightarrow>
          (map_option convertToSessionSync token,
           if tokens st1 = [] then keychain_deleteToken st1 else storeTokenData env st1))"

text \<open>
  \<^verbatim>\<open>clearSessions\<close>: the list is emptied, the keychain entry deleted, every timer of the
  map cancelled and the map cleared.
\<close>

definition clearAllTimeouts :: "state \<Rightarrow> state" where
  "clearAllTimeouts st =
     (fold (\<lambda>entry. clearTimeout (snd entry)) (refreshTimeouts st) st)\<lparr>refreshTimeouts := []\<rparr>"

definition clearSessions :: "state \<Rightarrow> state" where
  "clearSessions st = clearAllTimeouts (keychain_deleteToken (st\<lparr>tokens := []\<rparr>))"

definition pollForReconnect :: "string \<Rightarrow> string \<Rightarrow> string \<Rightarrow> state \<Rightarrow> state" where
  "pollForReconnect sid rt scp st =
     (case setTimeout (PollRefresh sid rt scp) (1000 * 60 * 30) (clearSessionTimeout sid st) of
        (h, st') \<Rightarrow> st'\<lparr>refreshTimeouts := AList.update sid h (refreshTimeouts st')\<rparr>)"

text \<open>
  What the caller awaiting \<^verbatim>\<open>handleRefreshNetworkError\<close> does when the promise resolves
  to \<^verbatim>\<open>false\<close>: the timer callback of \<^verbatim>\<open>setToken\<close> polls; \<^verbatim>\<open>initialize\<close> registers a
  token without access token and polls (its label is \<^verbatim>\<open>label ?? displayName\<close>, empty
  here when the stored account has neither).
\<close>

definition didNotSucceedOnRetry :: "awaiting \<Rightarrow> state \<Rightarrow> state" where
  "didNotSucceedOnRetry aw st =
     (case aw of
        FromSetToken token \<Rightarrow>
          pollForReconnect (sessionId token) (refreshTok token) (scope token) st
      | FromInitialize s \<Rightarrow>
          pollForReconnect (stored_id s) (stored_refreshToken s) (stored_scope s)
            (st\<lparr>tokens := tokens st @
                  [\<lparr>accessToken = None, idToken = None, expiresIn = None, expiresAt = None,
                    refreshTok = stored_refreshToken s,
                    account =
                      \<lparr>label =
                         (case stored_label (stored_account s) of
                            Some l \<Rightarrow> l
                          | None \<Rightarrow> (case stored_displayName (stored_account s) of
                                       Some d \<Rightarrow> d | None \<Rightarrow> [])),
                       acc_id = stored_acc_id (stored_account s)\<rparr>,
                    scope = stored_scope s,
                    sessionId = stored_id s\<rparr>]\<rparr>))"

text \<open>
  \<^verbatim>\<open>handleRefreshNetworkError\<close>. At the third attempt the promise resolves to
  \<^verbatim>\<open>false\<close>. At the first, the access token of the session is cleared in place and a
  change is fired. Otherwise the retry is armed after \<^verbatim>\<open>5 * attempts * attempts\<close>
  seconds.
\<close>

definition handleRefreshNetworkError ::
  "string \<Rightarrow> string \<Rightarrow> string \<Rightarrow> nat \<Rightarrow> awaiting \<Rightarrow> state \<Rightarrow> state" where
  "handleRefreshNetworkError sid rt scp attempts aw st =
     (if attempts = 3 then didNotSucceedOnRetry aw st
      else
        (let st1 =
               (if attempts = 1 then
                  (case findIndex (\<lambda>token. sessionId token = sid) (tokens st) of
                     None \<Rightarrow> st
                   | Some i \<Rightarrow>
                       (let token = (tokens st ! i)\<lparr>accessToken := None\<rparr>
                        in onDidChangeSessions_fire
                             \<lparr>added = [], removed = [], changed = [convertToSessionSync token]\<rparr>
                             (st\<lparr>tokens := (tokens st)[i := token]\<rparr>)))
                else st);
             delayBeforeRetry = 5 * int attempts * int attempts
         in case setTimeout (RetryRefresh sid rt scp attempts aw) (1000 * delayBeforeRetry)
                   (clearSessionTimeout sid st1) of
              (h, st') \<Rightarrow> st'\<lparr>refreshTimeouts := AList.update sid h (refreshTimeouts st')\<rparr>))"

text \<open>
  The bodies of the timer callbacks: of \<^verbatim>\<open>setToken\<close>, of \<^verbatim>\<open>handleRefreshNetworkError\<close>
  and of \<^verbatim>\<open>pollForReconnect\<close>. Each runs to its end, the provider answering inside it.
\<close>

definition runCallback :: "env \<Rightarrow> callback \<Rightarrow> state \<Rightarrow> state" where
  "runCallback env cb st =
     (case cb of
        ProactiveRefresh token scp \<Rightarrow>
          (case refreshToken env (refreshTok token) scp (sessionId token) st of
             (Inr refreshedToken, st1) \<Rightarrow>
               onDidChangeSessions_fire
                 \<lparr>added = [], removed = [], changed = [convertToSessionSync refreshedToken]\<rparr> st1
           | (Inl message, st1) \<Rightarrow>
               if message = REFRESH_NETWORK_FAILURE then
                 handleRefreshNetworkError (sessionId token) (refreshTok token) scp 1
                   (FromSetToken token) st1
               else
                 onDidChangeSessions_fire
                   \<lparr>added = [], removed = [convertToSessionSync token], changed = []\<rparr>
                   (snd (removeSession env (sessionId token) st1)))
      | RetryRefresh sid rt scp attempts aw \<Rightarrow>
          (case refreshToken env rt scp sid st of
             (Inr refreshedToken, st1) \<Rightarrow> st1
           | (Inl message, st1) \<Rightarrow>
               handleRefreshNetworkError sid rt scp (attempts + 1) aw st1)
      | PollRefresh sid rt scp \<Rightarrow>
          (case refreshToken env rt scp sid st of
             (Inr refreshedToken, st1) \<Rightarrow> st1
           | (Inl message, st1) \<Rightarrow> pollForReconnect sid rt scp st1))"

text \<open>
  The runtime fires the timer of handle \<open>h\<close>: nothing happens unless it is armed and
  due; a fired timer leaves the runtime before its callback runs.
\<close>

definition fireTimer :: "env \<Rightarrow> nat \<Rightarrow> state \<Rightarrow> state" where
  "fireTimer env h st =
     (case map_of (timers st) h of
        None \<Rightarrow> st
      | Some (due, cb) \<Rightarrow>
          if now st < due then st
          else runCallback env cb (clearTimeout h st))"

text \<open>The clock advances by \<open>d\<close> milliseconds.\<close>

definition advanceClock :: "nat \<Rightarrow> state \<Rightarrow> state" where
  "advanceClock d st = st\<lparr>now := now st + int d\<rparr>"

text \<open>
  \<^verbatim>\<open>resolveAccessAndIdTokens\<close>: the cached access token when it is truthy and
  \<^verbatim>\<open>expiresAt\<close> is falsy or later than now (\<open>cachedValid\<close>); otherwise a refresh, whose failure, or whose
  token without access token, is rethrown as \<^verbatim>\<open>Error('Unavailable due to network problems')\<close>.
\<close>

definition cachedValid :: "int \<Rightarrow> IToken \<Rightarrow> bool" where
  "cachedValid t token =
     (truthy (accessToken token) \<and>
      (\<not> truthy_num (expiresAt token) \<or>
       (case expiresAt token of None \<Rightarrow> False | Some e \<Rightarrow> t < e)))"

definition resolveAccessAndIdTokens ::
  "env \<Rightarrow> IToken \<Rightarrow> state \<Rightarrow> (string + IResolvedToken) \<times> state" where
  "resolveAccessAndIdTokens env token st =
     (if cachedValid (now st) token
      then (Inr \<lparr>resolved_accessToken = the (accessToken token),
                 resolved_idToken = idToken token\<rparr>, st)
      else
        (case refreshToken env (refreshTok token) (scope token) (sessionId token) st of
           (Inr refreshedToken, st1) \<Rightarrow>
             if truthy (accessToken refreshedToken)
             then (Inr \<lparr>resolved_accessToken = the (accessToken refreshedToken),
                        resolved_idToken = idToken refreshedToken\<rparr>, st1)
             else (Inl ''Unavailable due to network problems'', st1)
         | (Inl message, st1) \<Rightarrow> (Inl ''Unavailable due to network problems'', st1)))"

definition convertToSession :: "env \<Rightarrow> IToken \<Rightarrow> state \<Rightarrow> (string + session) \<times> state" where
  "convertToSession env token st =
     (case resolveAccessAndIdTokens env token st of
        (Inl message, st1) \<Rightarrow> (Inl message, st1)
      | (Inr resolvedTokens, st1) \<Rightarrow>
          (Inr \<lparr>session_id = sessionId token,
                session_accessToken = Some (resolved_accessToken resolvedTokens),
                session_idToken = resolved_idToken resolvedTokens,
                session_account = account token,
                scopes = split_sp (scope token)\<rparr>, st1))"

text \<open>
  \<^verbatim>\<open>Promise.all(ts.map(token => this.convertToSession(token)))\<close>: every token is
  converted, the provider answering in the order of the calls; the result is the list of
  sessions, or the error when one conversion fails.
\<close>

fun convertAll :: "env \<Rightarrow> IToken list \<Rightarrow> state \<Rightarrow> (string + session list) \<times> state" where
  "convertAll env [] st = (Inr [], st)"
| "convertAll env (token # ts) st =
     (case convertToSession env token st of
        (r, st1) \<Rightarrow>
          (case convertAll env ts st1 of
             (rs, st2) \<Rightarrow>
               ((case r of
                   Inl message \<Rightarrow> Inl message
                 | Inr s \<Rightarrow> (case rs of Inl message \<Rightarrow> Inl message | Inr ss \<Rightarrow> Inr (s # ss))),
                st2)))"

text \<open>The getter \<^verbatim>\<open>sessions\<close> and \<^verbatim>\<open>getSessions(scopes?)\<close>.\<close>

definition sessions :: "env \<Rightarrow> state \<Rightarrow> (string + session list) \<times> state" where
  "sessions env st = convertAll env (tokens st) st"

definition getSessions ::
  "env \<Rightarrow> string list option \<Rightarrow> state \<Rightarrow> (string + session list) \<times> state" where
  "getSessions env scps st =
     (case scps of
        None \<Rightarrow> sessions env st
      | Some scopes' \<Rightarrow>
          (let orderedScopes = join_sp (sort scopes');
               matchingTokens = filter (\<lambda>token. scope token = orderedScopes) (tokens st)
           in convertAll env matchingTokens st))"

text \<open>
  \<^verbatim>\<open>createSession(scopes)\<close> from the point where the code exchange has returned
  \<open>tokenSet\<close>: the token is converted, registered and turned into a session. The
  provider of \<^verbatim>\<open>extension.ts\<close> calls it with \<^verbatim>\<open>scopes.sort().join(' ')\<close> and fires the
  session as added.
\<close>

definition createSession ::
  "env \<Rightarrow> TokenSet \<Rightarrow> string \<Rightarrow> state \<Rightarrow> (string + session) \<times> state" where
  "createSession env tokenSet scp st =
     (let token = convertToken (now st) tokenSet scp None
      in convertToSession env token (setToken env token scp st))"

definition provider_createSession ::
  "env \<Rightarrow> TokenSet \<Rightarrow> string list \<Rightarrow> state \<Rightarrow> (string + session) \<times> state" where
  "provider_createSession env tokenSet scopes' st =
     (case createSession env tokenSet (join_sp (sort scopes')) st of
        (Inl message, st1) \<Rightarrow> (Inl message, st1)
      | (Inr s, st1) \<Rightarrow>
          (Inr s, onDidChangeSessions_fire \<lparr>added = [s], removed = [], changed = []\<rparr> st1))"

definition provider_removeSession :: "env \<Rightarrow> string \<Rightarrow> state \<Rightarrow> state" where
  "provider_removeSession env sid st =
     (case removeSession env sid st of
        (None, st1) \<Rightarrow> st1
      | (Some s, st1) \<Rightarrow>
          onDidChangeSessions_fire \<lparr>added = [], removed = [s], changed = []\<rparr> st1)"

section \<open>Reconciliation and startup\<close>

text \<open>
  The two tests \<^verbatim>\<open>matchesExisting\<close> of \<^verbatim>\<open>checkForUpdates\<close>: a stored session against
  the local tokens, a local token against the stored sessions; both compare scope and id.
\<close>

definition matchesToken :: "IToken list \<Rightarrow> IStoredSession \<Rightarrow> bool" where
  "matchesToken ts s =
     list_ex (\<lambda>token. scope token = stored_scope s \<and> sessionId token = stored_id s) ts"

definition matchesStored :: "IStoredSession list \<Rightarrow> IToken \<Rightarrow> bool" where
  "matchesStored ss token =
     list_ex (\<lambda>s. scope token = stored_scope s \<and> sessionId token = stored_id s) ss"

text \<open>
  The second \<^verbatim>\<open>map\<close> of \<^verbatim>\<open>checkForUpdates\<close> runs over \<^verbatim>\<open>this._tokens\<close> itself:
  \<^verbatim>\<open>Array.prototype.map\<close> reads the length once and then the element at each index \<open>k\<close>
  of the array as it is at that moment, skipping an index that no longer exists. The
  callback calls \<^verbatim>\<open>removeSession\<close>, which splices the array, before its first
  suspension. \<open>n\<close> counts the indices still to visit.
\<close>

fun removeUnmatched ::
  "env \<Rightarrow> IStoredSession list \<Rightarrow> nat \<Rightarrow> nat \<Rightarrow> session list \<Rightarrow> state
     \<Rightarrow> session list \<times> state" where
  "removeUnmatched env ss k 0 rem st = (rem, st)"
| "removeUnmatched env ss k (Suc n) rem st =
     (if k < length (tokens st) then
        (let token = tokens st ! k in
         if \<not> matchesStored ss token
         then removeUnmatched env ss (Suc k) n (rem @ [convertToSessionSync token])
                (snd (removeSession env (sessionId token) st))
         else removeUnmatched env ss (Suc k) n rem st)
      else removeUnmatched env ss (Suc k) n rem st)"

text \<open>
  The refreshes started by the first \<^verbatim>\<open>map\<close> of \<^verbatim>\<open>checkForUpdates\<close>, answered in the
  order of the calls: a refreshed token is pushed on \<^verbatim>\<open>added\<close>; a network failure is
  ignored; any other failure removes the session of that id.
\<close>

fun refreshUnmatched ::
  "env \<Rightarrow> IStoredSession list \<Rightarrow> session list \<Rightarrow> state \<Rightarrow> session list \<times> state" where
  "refreshUnmatched env [] add st = (add, st)"
| "refreshUnmatched env (s # ss) add st =
     (case refreshToken env (stored_refreshToken s) (stored_scope s) (stored_id s) st of
        (Inr token, st1) \<Rightarrow> refreshUnmatched env ss (add @ [convertToSessionSync token]) st1
      | (Inl message, st1) \<Rightarrow>
          if message = REFRESH_NETWORK_FAILURE then refreshUnmatched env ss add st1
          else refreshUnmatched env ss add (snd (removeSession env (stored_id s) st1)))"

text \<open>
  \<^verbatim>\<open>checkForUpdates\<close>. The matches of the stored sessions are computed, and their
  refreshes started, before the local tokens are visited; the refreshes are answered
  after. An absent or empty text is the \<^verbatim>\<open>else\<close> branch of \<^verbatim>\<open>if (storedData)\<close>.
\<close>

definition checkForUpdates :: "env \<Rightarrow> state \<Rightarrow> state" where
  "checkForUpdates env st =
     (case (if truthy (keychain_getToken st)
            then (case parseStoredData env (the (keychain_getToken st)) of
                    Some ss \<Rightarrow>
                      (let unmatched =
                             filter (\<lambda>s. \<not> matchesToken (tokens st) s \<and> stored_refreshToken s \<noteq> []) ss
                       in case removeUnmatched env ss 0 (length (tokens st)) [] st of
                            (rem, st1) \<Rightarrow>
                              (case refreshUnmatched env unmatched [] st1 of
                                 (add, st2) \<Rightarrow> (add, rem, st2)))
                  | None \<Rightarrow> ([], map convertToSessionSync (tokens st), clearSessions st))
            else if tokens st \<noteq> []
                 then ([], map convertToSessionSync (tokens st), clearAllTimeouts (st\<lparr>tokens := []\<rparr>))
                 else ([], [], st)) of
        (add, rem, st') \<Rightarrow>
          if add \<noteq> [] \<or> rem \<noteq> []
          then onDidChangeSessions_fire \<lparr>added = add, removed = rem, changed = []\<rparr> st'
          else st')"

text \<open>
  The refreshes of \<^verbatim>\<open>initialize\<close>, one for each stored session with a refresh token,
  answered in the order of the calls.
\<close>

fun restoreSessions :: "env \<Rightarrow> IStoredSession list \<Rightarrow> state \<Rightarrow> state" where
  "restoreSessions env [] st = st"
| "restoreSessions env (s # ss) st =
     (if stored_refreshToken s = [] then restoreSessions env ss st
      else
        (case refreshToken env (stored_refreshToken s) (stored_scope s) (stored_id s) st of
           (Inr token, st1) \<Rightarrow> restoreSessions env ss st1
         | (Inl message, st1) \<Rightarrow>
             if message = REFRESH_NETWORK_FAILURE
             then restoreSessions env ss
                    (handleRefreshNetworkError (stored_id s) (stored_refreshToken s)
                       (stored_scope s) 1 (FromInitialize s) st1)
             else restoreSessions env ss (snd (removeSession env (stored_id s) st1))))"

definition initialize :: "env \<Rightarrow> state \<Rightarrow> state" where
  "initialize env st =
     (if truthy (keychain_getToken st)
      then (case parseStoredData env (the (keychain_getToken st)) of
              Some ss \<Rightarrow> restoreSessions env ss st
            | None \<Rightarrow> clearSessions st)
      else st)"

section \<open>Runs of the service\<close>

text \<open>
  What can happen to a running service: a login whose code exchange returned a token
  set, a lookup, a logout, a change notice of the secret store, a timer firing, the clock
  advancing, another process writing the secret store.
\<close>

datatype action =
    Login TokenSet "string list"
  | Lookup "string list option"
  | Logout string
  | SecretsChanged
  | TimerFires nat
  | ClockAdvances nat
  | StoreWritten "string option"

fun exec :: "env \<Rightarrow> action \<Rightarrow> state \<Rightarrow> state" where
  "exec env (Login tokenSet scopes') st = snd (provider_createSession env tokenSet scopes' st)"
| "exec env (Lookup scps) st = snd (getSessions env scps st)"
| "exec env (Logout sid) st = provider_removeSession env sid st"
| "exec env SecretsChanged st = checkForUpdates env st"
| "exec env (TimerFires h) st = fireTimer env h st"
| "exec env (ClockAdvances d) st = advanceClock d st"
| "exec env (StoreWritten blob) st = st\<lparr>keychain := blob\<rparr>"

text \<open>A service built at time \<open>t\<close> over the stored text \<open>blob\<close>, and a run after \<^verbatim>\<open>initialize\<close>.\<close>

definition built :: "int \<Rightarrow> string option \<Rightarrow> state" where
  "built t blob =
     \<lparr>tokens = [], refreshTimeouts = [], timers = [], nextHandle = 0, now = t,
      keychain = blob, events = [], refreshCalls = []\<rparr>"

definition run :: "env \<Rightarrow> action list \<Rightarrow> state \<Rightarrow> state" where
  "run env acts st = fold (exec env) acts st"

section \<open>Notions used by the properties\<close>

text \<open>
  The timers of a session armed in the runtime, and the invariant that ties them to the
  map: handles are distinct and already issued, an armed timer is the one the map
  records for its session, and a handle the map records for a session is already issued
  and is not the handle of a timer armed for another session.
\<close>

definition timersOf :: "string \<Rightarrow> state \<Rightarrow> (nat \<times> int \<times> callback) list" where
  "timersOf sid st = filter (\<lambda>t. callback_session (snd (snd t)) = sid) (timers st)"

definition timer_inv :: "state \<Rightarrow> bool" where
  "timer_inv st =
     (distinct (map fst (timers st)) \<and>
      list_all (\<lambda>t. fst t < nextHandle st \<and>
                    map_of (refreshTimeouts st) (callback_session (snd (snd t))) = Some (fst t))
        (timers st) \<and>
      list_all (\<lambda>e. snd e < nextHandle st \<and>
                    list_all (\<lambda>t. fst t = snd e \<longrightarrow> callback_session (snd (snd t)) = fst e)
                      (timers st))
        (refreshTimeouts st))"

text \<open>
  A run made of clock advances and of firings of timers whose handle is below \<open>n\<close>.
\<close>

definition clockRun :: "nat \<Rightarrow> action list \<Rightarrow> bool" where
  "clockRun n acts =
     list_all (\<lambda>a. case a of TimerFires h \<Rightarrow> h < n | ClockAdvances d \<Rightarrow> True | _ \<Rightarrow> False) acts"

text \<open>
  No timer issued before handle \<open>n\<close> is armed for the session; and the timers of a later
  state are timers of an earlier one or have handles issued since.
\<close>

definition noEarlierTimer :: "string \<Rightarrow> nat \<Rightarrow> state \<Rightarrow> bool" where
  "noEarlierTimer sid n st =
     (n \<le> nextHandle st \<and>
      list_all (\<lambda>t. fst t < n \<longrightarrow> callback_session (snd (snd t)) \<noteq> sid) (timers st))"

definition timersGrow :: "state \<Rightarrow> state \<Rightarrow> bool" where
  "timersGrow st st' =
     (nextHandle st \<le> nextHandle st' \<and>
      list_all (\<lambda>t. t \<in> set (timers st) \<or> nextHandle st \<le> fst t) (timers st'))"





section \<open>Scenarios\<close>

text \<open>Concrete tokens, collaborators and states on which the theorems below are run.\<close>

definition dev_account :: account_info where
  "dev_account = \<lparr>label = ''dev'', acc_id = ''u1''\<rparr>"

definition tokenA :: IToken where
  "tokenA =
     \<lparr>accessToken = Some ''atA'', idToken = None, expiresIn = Some 300,
      expiresAt = Some 301000, refreshTok = ''rtA'', account = dev_account,
      scope = ''api openid'', sessionId = ''A''\<rparr>"

definition tokenB :: IToken where
  "tokenB =
     \<lparr>accessToken = Some ''atB'', idToken = None, expiresIn = None, expiresAt = None,
      refreshTok = ''rtB'', account = dev_account, scope = ''openid'', sessionId = ''B''\<rparr>"

text \<open>
  A provider that rejects every refresh with a network error; \<^verbatim>\<open>JSON.parse\<close> accepts
  only the empty array.
\<close>

definition offline :: env where
  "offline =
     \<lparr>client_refresh = (\<lambda>t rt. Inl ''Network failure''),
      JSON_parse = (\<lambda>text. if text = ''[]'' then Some [] else None),
      JSON_stringify = (\<lambda>ss. concat (map stored_id ss))\<rparr>"

text \<open>
  Two sessions registered at time 1000: the first expires in 300 seconds, so its
  proactive refresh is armed for 270 seconds later; the second has no expiry.
\<close>

definition twoSessions :: state where
  "twoSessions =
     \<lparr>tokens = [tokenA, tokenB], refreshTimeouts = [(''A'', 0)],
      timers = [(0, 271000, ProactiveRefresh tokenA ''api openid'')], nextHandle = 1,
      now = 1000, keychain = Some ''AB'', events = [], refreshCalls = []\<rparr>"



text \<open>The same two sessions over a stored text that does not parse.\<close>

definition garbled :: state where
  "garbled = twoSessions\<lparr>keychain := Some ''{not json''\<rparr>"








section \<open>Properties\<close>

subsection \<open>Effects of the primitives on the fields of the state\<close>

lemma clearTimeout_fields [simp]:
  "tokens (clearTimeout h st) = tokens st"
  "refreshTimeouts (clearTimeout h st) = refreshTimeouts st"
  "nextHandle (clearTimeout h st) = nextHandle st"
  "now (clearTimeout h st) = now st"
  "keychain (clearTimeout h st) = keychain st"
  "events (clearTimeout h st) = events st"
  "refreshCalls (clearTimeout h st) = refreshCalls st"
  "timers (clearTimeout h st) = filter (\<lambda>t. fst t \<noteq> h) (timers st)"
  by (simp_all add: clearTimeout_def)

lemma fold_clearTimeout:
  "fold (\<lambda>entry. clearTimeout (snd entry)) es st =
     st\<lparr>timers := filter (\<lambda>t. fst t \<notin> snd ` set es) (timers st)\<rparr>"
proof (induction es arbitrary: st)
  case Nil
  then show ?case by simp
next
  case (Cons e es)
  have "fold (\<lambda>entry. clearTimeout (snd entry)) (e # es) st =
        (clearTimeout (snd e) st)
          \<lparr>timers := filter (\<lambda>t. fst t \<notin> snd ` set es) (timers (clearTimeout (snd e) st))\<rparr>"
    by (simp add: Cons.IH)
  also have "\<dots> = st\<lparr>timers := filter (\<lambda>t. fst t \<notin> snd ` set (e # es)) (timers st)\<rparr>"
    by (auto simp: clearTimeout_def intro: filter_cong)
  finally show ?case .
qed

lemma clearAllTimeouts_fields [simp]:
  "tokens (clearAllTimeouts st) = tokens st"
  "refreshTimeouts (clearAllTimeouts st) = []"
  "nextHandle (clearAllTimeouts st) = nextHandle st"
  "now (clearAllTimeouts st) = now st"
  "keychain (clearAllTimeouts st) = keychain st"
  "events (clearAllTimeouts st) = events st"
  "refreshCalls (clearAllTimeouts st) = refreshCalls st"
  "timers (clearAllTimeouts st) =
     filter (\<lambda>t. fst t \<notin> snd ` set (refreshTimeouts st)) (timers st)"
  by (simp_all add: clearAllTimeouts_def fold_clearTimeout)

lemma setTimeout_fields [simp]:
  "fst (setTimeout cb d st) = nextHandle st"
  "tokens (snd (setTimeout cb d st)) = tokens st"
  "refreshTimeouts (snd (setTimeout cb d st)) = refreshTimeouts st"
  "nextHandle (snd (setTimeout cb d st)) = Suc (nextHandle st)"
  "now (snd (setTimeout cb d st)) = now st"
  "keychain (snd (setTimeout cb d st)) = keychain st"
  "events (snd (setTimeout cb d st)) = events st"
  "refreshCalls (snd (setTimeout cb d st)) = refreshCalls st"
  "timers (snd (setTimeout cb d st)) =
     timers st @ [(nextHandle st, now st + (if d < 1 \<or> 2147483647 < d then 1 else d), cb)]"
  by (simp_all add: setTimeout_def)

lemma fire_fields [simp]:
  "tokens (onDidChangeSessions_fire ev st) = tokens st"
  "refreshTimeouts (onDidChangeSessions_fire ev st) = refreshTimeouts st"
  "timers (onDidChangeSessions_fire ev st) = timers st"
  "nextHandle (onDidChangeSessions_fire ev st) = nextHandle st"
  "now (onDidChangeSessions_fire ev st) = now st"
  "keychain (onDidChangeSessions_fire ev st) = keychain st"
  "events (onDidChangeSessions_fire ev st) = events st @ [ev]"
  "refreshCalls (onDidChangeSessions_fire ev st) = refreshCalls st"
  by (simp_all add: onDidChangeSessions_fire_def)

lemma storeTokenData_fields [simp]:
  "tokens (storeTokenData env st) = tokens st"
  "refreshTimeouts (storeTokenData env st) = refreshTimeouts st"
  "timers (storeTokenData env st) = timers st"
  "nextHandle (storeTokenData env st) = nextHandle st"
  "now (storeTokenData env st) = now st"
  "events (storeTokenData env st) = events st"
  "refreshCalls (storeTokenData env st) = refreshCalls st"
  by (simp_all add: storeTokenData_def keychain_setToken_def)

lemma keychain_deleteToken_fields [simp]:
  "tokens (keychain_deleteToken st) = tokens st"
  "refreshTimeouts (keychain_deleteToken st) = refreshTimeouts st"
  "timers (keychain_deleteToken st) = timers st"
  "nextHandle (keychain_deleteToken st) = nextHandle st"
  "now (keychain_deleteToken st) = now st"
  "events (keychain_deleteToken st) = events st"
  "refreshCalls (keychain_deleteToken st) = refreshCalls st"
  "keychain (keychain_deleteToken st) = None"
  by (simp_all add: keychain_deleteToken_def)

lemma clearSessionTimeout_fields [simp]:
  "tokens (clearSessionTimeout sid st) = tokens st"
  "nextHandle (clearSessionTimeout sid st) = nextHandle st"
  "now (clearSessionTimeout sid st) = now st"
  "keychain (clearSessionTimeout sid st) = keychain st"
  "events (clearSessionTimeout sid st) = events st"
  "refreshCalls (clearSessionTimeout sid st) = refreshCalls st"
  by (simp_all add: clearSessionTimeout_def split: option.splits)

lemma clearSessionTimeout_timers:
  "timers (clearSessionTimeout sid st) =
     (case map_of (refreshTimeouts st) sid of
        None \<Rightarrow> timers st
      | Some h \<Rightarrow> filter (\<lambda>t. fst t \<noteq> h) (timers st))"
  by (simp add: clearSessionTimeout_def split: option.splits)

lemma clearSessionTimeout_map:
  "map_of (refreshTimeouts (clearSessionTimeout sid st)) = (map_of (refreshTimeouts st))(sid := None)"
  by (auto simp: clearSessionTimeout_def AList.delete_conv' split: option.splits)

lemma arm_eq:
  "(case setTimeout cb d st of
      (h, st') \<Rightarrow> st'\<lparr>refreshTimeouts := AList.update sid h (refreshTimeouts st')\<rparr>) =
   (snd (setTimeout cb d st))
      \<lparr>refreshTimeouts := AList.update sid (nextHandle st) (refreshTimeouts st)\<rparr>"
  by (simp add: setTimeout_def)

lemma refreshToken_failure:
  "client_refresh env (now st) rt = Inl err \<Longrightarrow>
   refreshToken env rt scp sid st =
     (Inl ''Refreshing token failed'', st\<lparr>refreshCalls := refreshCalls st @ [(rt, scp, sid)]\<rparr>)"
  by (simp add: refreshToken_def)

lemma refreshToken_success:
  "client_refresh env (now st) rt = Inr ts \<Longrightarrow>
   refreshToken env rt scp sid st =
     (Inr (convertToken (now st) ts scp (Some sid)),
      setToken env (convertToken (now st) ts scp (Some sid)) scp
        (st\<lparr>refreshCalls := refreshCalls st @ [(rt, scp, sid)]\<rparr>))"
  by (simp add: refreshToken_def Let_def)

lemma failure_message_not_network: "''Refreshing token failed'' \<noteq> REFRESH_NETWORK_FAILURE"
  by (simp add: REFRESH_NETWORK_FAILURE_def)

subsection \<open>The timer invariant and the operations that keep it\<close>

text \<open>The invariant reads the timers, the map and the next handle only.\<close>

lemma timer_inv_irrelevant [simp]:
  "timer_inv (st\<lparr>tokens := ts\<rparr>) = timer_inv st"
  "timer_inv (st\<lparr>keychain := k\<rparr>) = timer_inv st"
  "timer_inv (st\<lparr>events := es\<rparr>) = timer_inv st"
  "timer_inv (st\<lparr>refreshCalls := cs\<rparr>) = timer_inv st"
  "timer_inv (st\<lparr>now := t\<rparr>) = timer_inv st"
  by (simp_all add: timer_inv_def)

lemma timer_inv_cong:
  "timers st' = timers st \<Longrightarrow> refreshTimeouts st' = refreshTimeouts st \<Longrightarrow>
   nextHandle st' = nextHandle st \<Longrightarrow> timer_inv st' = timer_inv st"
  by (simp add: timer_inv_def)

lemma timersOf_cong:
  "timers st' = timers st \<Longrightarrow> timersOf sid st' = timersOf sid st"
  by (simp add: timersOf_def)

lemma in_set_AList_delete: "e \<in> set (AList.delete k al) \<Longrightarrow> e \<in> set al"
  by (auto simp: AList.delete_eq)

lemma in_set_AList_update: "e \<in> set (AList.update k v al) \<Longrightarrow> e = (k, v) \<or> e \<in> set al"
  by (induction al) (auto split: if_splits)

lemma timer_inv_parts:
  "timer_inv st \<longleftrightarrow>
     distinct (map fst (timers st)) \<and>
     (\<forall>t \<in> set (timers st). fst t < nextHandle st \<and>
        map_of (refreshTimeouts st) (callback_session (snd (snd t))) = Some (fst t)) \<and>
     (\<forall>e \<in> set (refreshTimeouts st). snd e < nextHandle st \<and>
        (\<forall>t \<in> set (timers st). fst t = snd e \<longrightarrow> callback_session (snd (snd t)) = fst e))"
  by (simp add: timer_inv_def list_all_iff)

lemma timer_inv_recorded:
  "timer_inv st \<Longrightarrow> t \<in> set (timers st) \<Longrightarrow> fst t \<in> snd ` set (refreshTimeouts st)"
proof -
  assume "timer_inv st" "t \<in> set (timers st)"
  then have "map_of (refreshTimeouts st) (callback_session (snd (snd t))) = Some (fst t)"
    by (simp add: timer_inv_def list_all_iff)
  then have "(callback_session (snd (snd t)), fst t) \<in> set (refreshTimeouts st)"
    by (rule map_of_SomeD)
  then show ?thesis by force
qed

lemma timer_inv_clearSessionTimeout:
  assumes "timer_inv st"
  shows "timer_inv (clearSessionTimeout sid st)"
    and "timersOf sid (clearSessionTimeout sid st) = []"
proof -
  note inv = assms[unfolded timer_inv_parts]
  show "timer_inv (clearSessionTimeout sid st)"
  proof (cases "map_of (refreshTimeouts st) sid")
    case None
    then show ?thesis using assms by (simp add: clearSessionTimeout_def)
  next
    case (Some h)
    let ?ts = "filter (\<lambda>t. fst t \<noteq> h) (timers st)"
    let ?m = "AList.delete sid (refreshTimeouts st)"
    have st': "clearSessionTimeout sid st = st\<lparr>timers := ?ts, refreshTimeouts := ?m\<rparr>"
      using Some by (simp add: clearSessionTimeout_def clearTimeout_def)
    have p1: "distinct (map fst ?ts)" using inv by (simp add: distinct_map_filter)
    have other: "callback_session (snd (snd t)) \<noteq> sid" if "t \<in> set ?ts" for t
      using that inv Some by auto
    have p2: "fst t < nextHandle st \<and> map_of ?m (callback_session (snd (snd t))) = Some (fst t)"
      if "t \<in> set ?ts" for t
      using that inv other[OF that] by simp
    have p3: "snd e < nextHandle st \<and>
        (\<forall>t \<in> set ?ts. fst t = snd e \<longrightarrow> callback_session (snd (snd t)) = fst e)"
      if "e \<in> set ?m" for e
      using in_set_AList_delete[OF that] inv by auto
    show ?thesis
      unfolding st' timer_inv_parts using p1 p2 p3 by simp blast
  qed
  show "timersOf sid (clearSessionTimeout sid st) = []"
    using inv
    by (auto simp: timersOf_def clearSessionTimeout_timers filter_empty_conv
        split: option.splits)
qed

lemma timer_inv_arm:
  assumes "timer_inv st" and "timersOf sid st = []" and "callback_session cb = sid"
  shows "timer_inv ((snd (setTimeout cb d st))
           \<lparr>refreshTimeouts := AList.update sid (nextHandle st) (refreshTimeouts st)\<rparr>)"
proof -
  note inv = assms(1)[unfolded timer_inv_parts]
  let ?n = "nextHandle st"
  let ?m = "AList.update sid ?n (refreshTimeouts st)"
  obtain due where st':
    "(snd (setTimeout cb d st))\<lparr>refreshTimeouts := ?m\<rparr> =
       st\<lparr>timers := timers st @ [(?n, due, cb)], nextHandle := Suc ?n, refreshTimeouts := ?m\<rparr>"
    by (simp add: setTimeout_def)
  have no: "\<forall>t \<in> set (timers st). callback_session (snd (snd t)) \<noteq> sid"
    using assms(2) by (auto simp: timersOf_def filter_empty_conv)
  have lt: "\<forall>t \<in> set (timers st). fst t < ?n" using inv by auto
  then have fresh: "?n \<notin> fst ` set (timers st)" by auto
  have p1: "distinct (map fst (timers st @ [(?n, due, cb)]))" using inv fresh by simp
  have p2: "fst t < Suc ?n \<and> map_of ?m (callback_session (snd (snd t))) = Some (fst t)"
    if "t \<in> set (timers st @ [(?n, due, cb)])" for t
    using that inv no assms(3) by (auto simp: AList.update_conv' less_Suc_eq)
  have p3: "snd e < Suc ?n \<and>
        (\<forall>t \<in> set (timers st @ [(?n, due, cb)]).
            fst t = snd e \<longrightarrow> callback_session (snd (snd t)) = fst e)"
    if "e \<in> set ?m" for e
  proof -
    from in_set_AList_update[OF that] show ?thesis
    proof
      assume "e = (sid, ?n)"
      then show ?thesis using lt assms(3) by auto
    next
      assume e: "e \<in> set (refreshTimeouts st)"
      then have "snd e < ?n" using inv by auto
      then show ?thesis using e inv by auto
    qed
  qed
  show ?thesis
    unfolding st' timer_inv_parts using p1 p2 p3 by simp blast
qed

lemma timer_inv_storeTokenData [simp]: "timer_inv (storeTokenData env st) = timer_inv st"
  by (rule timer_inv_cong) simp_all

lemma timer_inv_deleteToken [simp]: "timer_inv (keychain_deleteToken st) = timer_inv st"
  by (rule timer_inv_cong) simp_all

lemma timer_inv_fire [simp]: "timer_inv (onDidChangeSessions_fire ev st) = timer_inv st"
  by (rule timer_inv_cong) simp_all

lemma timer_inv_clearTimeout: "timer_inv st \<Longrightarrow> timer_inv (clearTimeout h st)"
  unfolding timer_inv_parts by (simp add: distinct_map_filter)

lemma timer_inv_clear_arm:
  assumes "timer_inv st" and "callback_session cb = sid"
  shows "timer_inv
     (case setTimeout cb d (clearSessionTimeout sid st) of
        (h, st') \<Rightarrow> st'\<lparr>refreshTimeouts := AList.update sid h (refreshTimeouts st')\<rparr>)"
proof -
  have i: "timer_inv (clearSessionTimeout sid st)"
    and n: "timersOf sid (clearSessionTimeout sid st) = []"
    using timer_inv_clearSessionTimeout[OF assms(1)] by simp_all
  show ?thesis
    unfolding arm_eq using timer_inv_arm[OF i n assms(2)] by simp
qed

lemma timer_inv_pollForReconnect:
  "timer_inv st \<Longrightarrow> timer_inv (pollForReconnect sid rt scp st)"
  unfolding pollForReconnect_def by (rule timer_inv_clear_arm) simp_all

lemma timer_inv_setToken: "timer_inv st \<Longrightarrow> timer_inv (setToken env token scp st)"
proof -
  assume inv: "timer_inv st"
  define st1 where "st1 =
     (case findIndex (\<lambda>t. sessionId t = sessionId token) (tokens st) of
        Some i \<Rightarrow> st\<lparr>tokens := take i (tokens st) @ [token] @ drop (Suc i) (tokens st)\<rparr>
      | None \<Rightarrow> st\<lparr>tokens := tokens st @ [token]\<rparr>)"
  have i1: "timer_inv st1"
    using inv by (simp add: st1_def split: option.splits)
  have i2: "timer_inv (clearSessionTimeout (sessionId token) st1)"
    using timer_inv_clearSessionTimeout(1)[OF i1] .
  have i3: "timer_inv
     (case setTimeout (ProactiveRefresh token scp) d (clearSessionTimeout (sessionId token) st1) of
        (h, st') \<Rightarrow> st'\<lparr>refreshTimeouts := AList.update (sessionId token) h (refreshTimeouts st')\<rparr>)"
    for d
    by (rule timer_inv_clear_arm[OF i1]) simp
  show ?thesis
    unfolding setToken_def Let_def st1_def[symmetric]
    using i2 i3 by (simp split: option.splits)
qed

lemma timer_inv_refreshToken:
  "timer_inv st \<Longrightarrow> timer_inv (snd (refreshToken env rt scp sid st))"
  by (simp add: refreshToken_def Let_def timer_inv_setToken split: sum.splits)

lemma timer_inv_removeInMemorySessionData:
  "timer_inv st \<Longrightarrow> timer_inv (snd (removeInMemorySessionData sid st))"
  by (simp add: removeInMemorySessionData_def timer_inv_clearSessionTimeout(1) split: option.splits)

lemma timer_inv_removeSession:
  "timer_inv st \<Longrightarrow> timer_inv (snd (removeSession env sid st))"
  using timer_inv_removeInMemorySessionData[of st sid]
  by (simp add: removeSession_def case_prod_beta)

lemma timer_inv_didNotSucceedOnRetry:
  "timer_inv st \<Longrightarrow> timer_inv (didNotSucceedOnRetry aw st)"
  by (cases aw) (simp_all add: didNotSucceedOnRetry_def timer_inv_pollForReconnect)

lemma timer_inv_handleRefreshNetworkError:
  "timer_inv st \<Longrightarrow> timer_inv (handleRefreshNetworkError sid rt scp attempts aw st)"
proof -
  assume inv: "timer_inv st"
  define st1 where "st1 =
     (if attempts = 1 then
        (case findIndex (\<lambda>token. sessionId token = sid) (tokens st) of
           None \<Rightarrow> st
         | Some i \<Rightarrow>
             (let token = (tokens st ! i)\<lparr>accessToken := None\<rparr>
              in onDidChangeSessions_fire
                   \<lparr>added = [], removed = [], changed = [convertToSessionSync token]\<rparr>
                   (st\<lparr>tokens := (tokens st)[i := token]\<rparr>)))
      else st)"
  have i1: "timer_inv st1"
    using inv by (simp add: st1_def Let_def split: option.splits)
  have i3: "timer_inv
     (case setTimeout (RetryRefresh sid rt scp attempts aw) d (clearSessionTimeout sid st1) of
        (h, st') \<Rightarrow> st'\<lparr>refreshTimeouts := AList.update sid h (refreshTimeouts st')\<rparr>)"
    for d
    by (rule timer_inv_clear_arm[OF i1]) simp
  show ?thesis
  proof (cases "attempts = 3")
    case True
    then show ?thesis
      using inv by (simp add: handleRefreshNetworkError_def timer_inv_didNotSucceedOnRetry)
  next
    case False
    then have "handleRefreshNetworkError sid rt scp attempts aw st =
      (case setTimeout (RetryRefresh sid rt scp attempts aw)
              (1000 * (5 * int attempts * int attempts)) (clearSessionTimeout sid st1) of
        (h, st') \<Rightarrow> st'\<lparr>refreshTimeouts := AList.update sid h (refreshTimeouts st')\<rparr>)"
      by (simp add: handleRefreshNetworkError_def Let_def st1_def)
    then show ?thesis using i3 by simp
  qed
qed

lemma timer_inv_runCallback:
  "timer_inv st \<Longrightarrow> timer_inv (runCallback env cb st)"
proof (cases cb)
  case (ProactiveRefresh token scp)
  assume inv: "timer_inv st"
  obtain r st1 where r: "refreshToken env (refreshTok token) scp (sessionId token) st = (r, st1)"
    by (cases "refreshToken env (refreshTok token) scp (sessionId token) st")
  then have i1: "timer_inv st1" using timer_inv_refreshToken[OF inv, of env] by (metis snd_conv)
  show ?thesis
    using i1 r ProactiveRefresh
    by (simp add: runCallback_def timer_inv_handleRefreshNetworkError timer_inv_removeSession
        split: sum.splits)
next
  case (RetryRefresh sid rt scp attempts aw)
  assume inv: "timer_inv st"
  obtain r st1 where r: "refreshToken env rt scp sid st = (r, st1)"
    by (cases "refreshToken env rt scp sid st")
  then have i1: "timer_inv st1" using timer_inv_refreshToken[OF inv, of env] by (metis snd_conv)
  show ?thesis
    using i1 r RetryRefresh
    by (simp add: runCallback_def timer_inv_handleRefreshNetworkError split: sum.splits)
next
  case (PollRefresh sid rt scp)
  assume inv: "timer_inv st"
  obtain r st1 where r: "refreshToken env rt scp sid st = (r, st1)"
    by (cases "refreshToken env rt scp sid st")
  then have i1: "timer_inv st1" using timer_inv_refreshToken[OF inv, of env] by (metis snd_conv)
  show ?thesis
    using i1 r PollRefresh
    by (simp add: runCallback_def timer_inv_pollForReconnect split: sum.splits)
qed

lemma timer_inv_fireTimer: "timer_inv st \<Longrightarrow> timer_inv (fireTimer env h st)"
  by (simp add: fireTimer_def timer_inv_runCallback timer_inv_clearTimeout split: option.splits)

lemma timer_inv_resolve:
  "timer_inv st \<Longrightarrow> timer_inv (snd (resolveAccessAndIdTokens env token st))"
  using timer_inv_refreshToken[of st env "refreshTok token" "scope token" "sessionId token"]
  by (simp add: resolveAccessAndIdTokens_def case_prod_beta split: sum.splits)

lemma timer_inv_convertToSession:
  "timer_inv st \<Longrightarrow> timer_inv (snd (convertToSession env token st))"
  using timer_inv_resolve[of st env token]
  by (simp add: convertToSession_def case_prod_beta split: sum.splits)

lemma timer_inv_convertAll:
  "timer_inv st \<Longrightarrow> timer_inv (snd (convertAll env ts st))"
proof (induction ts arbitrary: st)
  case Nil
  then show ?case by simp
next
  case (Cons t ts)
  have "timer_inv (snd (convertToSession env t st))"
    using Cons.prems by (rule timer_inv_convertToSession)
  then have "timer_inv (snd (convertAll env ts (snd (convertToSession env t st))))"
    by (rule Cons.IH)
  then show ?case by (simp add: case_prod_beta)
qed

lemma timer_inv_getSessions:
  "timer_inv st \<Longrightarrow> timer_inv (snd (getSessions env scps st))"
  by (simp add: getSessions_def sessions_def timer_inv_convertAll split: option.splits)

lemma timer_inv_createSession:
  "timer_inv st \<Longrightarrow> timer_inv (snd (createSession env tokenSet scp st))"
  by (simp add: createSession_def Let_def timer_inv_convertToSession timer_inv_setToken)

lemma timer_inv_provider_createSession:
  "timer_inv st \<Longrightarrow> timer_inv (snd (provider_createSession env tokenSet scps st))"
  using timer_inv_createSession[of st env tokenSet "join_sp (sort scps)"]
  by (simp add: provider_createSession_def case_prod_beta split: sum.splits)

lemma timer_inv_provider_removeSession:
  "timer_inv st \<Longrightarrow> timer_inv (provider_removeSession env sid st)"
  using timer_inv_removeSession[of st env sid]
  by (simp add: provider_removeSession_def case_prod_beta split: option.splits)

lemma timer_inv_clearAllTimeouts: "timer_inv st \<Longrightarrow> timer_inv (clearAllTimeouts st)"
proof -
  assume inv: "timer_inv st"
  have "\<forall>t \<in> set (timers st). fst t \<in> snd ` set (refreshTimeouts st)"
    using timer_inv_recorded[OF inv] by blast
  then have "timers (clearAllTimeouts st) = []"
    by (simp add: filter_empty_conv)
  then show ?thesis by (simp add: timer_inv_def)
qed

lemma timer_inv_clearSessions: "timer_inv st \<Longrightarrow> timer_inv (clearSessions st)"
  by (simp add: clearSessions_def timer_inv_clearAllTimeouts)

lemma timer_inv_removeUnmatched:
  "timer_inv st \<Longrightarrow> timer_inv (snd (removeUnmatched env ss k n rem st))"
proof (induction n arbitrary: k rem st)
  case 0
  then show ?case by simp
next
  case (Suc n)
  show ?case
    using Suc.prems by (simp add: Let_def Suc.IH timer_inv_removeSession)
qed

lemma timer_inv_refreshUnmatched:
  "timer_inv st \<Longrightarrow> timer_inv (snd (refreshUnmatched env ss add st))"
proof (induction ss arbitrary: add st)
  case Nil
  then show ?case by simp
next
  case (Cons s ss)
  have i1: "timer_inv (snd (refreshToken env (stored_refreshToken s) (stored_scope s) (stored_id s) st))"
    using Cons.prems by (rule timer_inv_refreshToken)
  show ?case
    using i1 by (simp add: case_prod_beta Cons.IH timer_inv_removeSession split: sum.splits)
qed

lemma timer_inv_checkForUpdates: "timer_inv st \<Longrightarrow> timer_inv (checkForUpdates env st)"
proof -
  assume inv: "timer_inv st"
  have a: "timer_inv (snd (refreshUnmatched env us [] (snd (removeUnmatched env ss 0 n [] st))))"
    for us ss n
    by (intro timer_inv_refreshUnmatched timer_inv_removeUnmatched inv)
  have b: "timer_inv (clearAllTimeouts (st\<lparr>tokens := []\<rparr>))"
    using inv by (simp add: timer_inv_clearAllTimeouts)
  show ?thesis
    using a b inv
    by (simp add: checkForUpdates_def Let_def case_prod_beta timer_inv_clearSessions
        timer_inv_refreshUnmatched timer_inv_removeUnmatched split: option.splits)
qed

lemma timer_inv_restoreSessions:
  "timer_inv st \<Longrightarrow> timer_inv (restoreSessions env ss st)"
proof (induction ss arbitrary: st)
  case Nil
  then show ?case by simp
next
  case (Cons s ss)
  have i1: "timer_inv (snd (refreshToken env (stored_refreshToken s) (stored_scope s) (stored_id s) st))"
    using Cons.prems by (rule timer_inv_refreshToken)
  show ?case
    using i1 Cons.prems
    by (simp add: case_prod_beta Cons.IH timer_inv_removeSession
        timer_inv_handleRefreshNetworkError split: sum.splits)
qed

lemma timer_inv_initialize: "timer_inv st \<Longrightarrow> timer_inv (initialize env st)"
  by (simp add: initialize_def timer_inv_restoreSessions timer_inv_clearSessions
      split: option.splits)

lemma timer_inv_exec: "timer_inv st \<Longrightarrow> timer_inv (exec env act st)"
  by (cases act)
    (simp_all add: timer_inv_provider_createSession timer_inv_getSessions
      timer_inv_provider_removeSession timer_inv_checkForUpdates timer_inv_fireTimer
      advanceClock_def)

lemma timer_inv_run: "timer_inv st \<Longrightarrow> timer_inv (run env acts st)"
  unfolding run_def by (induction acts arbitrary: st) (simp_all add: timer_inv_exec)

lemma timer_inv_built: "timer_inv (built t blob)"
  by (simp add: timer_inv_def built_def)

lemma at_most_one_by_handle:
  "distinct (map fst ts) \<Longrightarrow> \<forall>t \<in> set ts. P t \<longrightarrow> fst t = h \<Longrightarrow> length (filter P ts) \<le> 1"
proof (induction ts)
  case Nil
  then show ?case by simp
next
  case (Cons t ts)
  show ?case
  proof (cases "P t")
    case True
    then have "fst t = h" using Cons.prems(2) by simp
    then have "\<forall>u \<in> set ts. \<not> P u"
      using Cons.prems by (metis distinct.simps(2) image_eqI list.set_intros(2) list.simps(9) set_map)
    then have "filter P ts = []" by (simp add: filter_empty_conv)
    then show ?thesis using True by simp
  next
    case False
    then show ?thesis using Cons by simp
  qed
qed

lemma timer_inv_at_most_one: "timer_inv st \<Longrightarrow> length (timersOf sid st) \<le> 1"
proof -
  assume inv: "timer_inv st"
  show ?thesis
  proof (cases "map_of (refreshTimeouts st) sid")
    case None
    then have "\<forall>t \<in> set (timers st). callback_session (snd (snd t)) \<noteq> sid"
      using inv by (auto simp: timer_inv_def list_all_iff)
    then have "timersOf sid st = []" by (simp add: timersOf_def filter_empty_conv)
    then show ?thesis by simp
  next
    case (Some h)
    have "\<forall>t \<in> set (timers st). callback_session (snd (snd t)) = sid \<longrightarrow> fst t = h"
      using inv Some by (auto simp: timer_inv_def list_all_iff)
    then show ?thesis
      unfolding timersOf_def using inv
      by (intro at_most_one_by_handle[where h = h]) (simp_all add: timer_inv_def)
  qed
qed

lemma clearAllTimeouts_none_left:
  "timer_inv st \<Longrightarrow> timers (clearAllTimeouts (st\<lparr>tokens := ts, keychain := k\<rparr>)) = []"
proof -
  assume inv: "timer_inv st"
  have "\<forall>t \<in> set (timers st). fst t \<in> snd ` set (refreshTimeouts st)"
    using timer_inv_recorded[OF inv] by blast
  then show ?thesis by (simp add: filter_empty_conv)
qed

lemma twoSessions_inv: "timer_inv twoSessions"
  by (simp add: timer_inv_def twoSessions_def tokenA_def)

lemma garbled_inv: "timer_inv garbled"
  using twoSessions_inv by (simp add: timer_inv_def garbled_def)

subsection \<open>Stored data\<close>

lemma storedSession_fields:
  "stored_id (storedSession t) = sessionId t"
  "stored_refreshToken (storedSession t) = refreshTok t"
  "stored_scope (storedSession t) = scope t"
  "stored_label (stored_account (storedSession t)) = Some (label (account t))"
  "stored_acc_id (stored_account (storedSession t)) = acc_id (account t)"
  by (simp_all add: storedSession_def)

lemma storedSession_ignores:
  "storedSession (t\<lparr>accessToken := a, idToken := b, expiresIn := c, expiresAt := d\<rparr>) =
     storedSession t"
  by (simp add: storedSession_def)

text \<open>
  Claim C7. Whatever the state, \<^verbatim>\<open>storeTokenData\<close> hands the keychain the serialisation
  of one entry per token, in order, each made of the session id, the refresh token, the
  scope and the account of its token; the text written does not depend on the access
  tokens, the ID tokens or the expiry fields of the tokens.
\<close>

theorem storeTokenData_persists_stored_fields_only:
  "keychain (storeTokenData env st) =
     Some (JSON_stringify env (map storedSession (tokens st))) \<and>
   length (map storedSession (tokens st)) = length (tokens st) \<and>
   map stored_id (map storedSession (tokens st)) = map sessionId (tokens st) \<and>
   map stored_refreshToken (map storedSession (tokens st)) = map refreshTok (tokens st) \<and>
   map stored_scope (map storedSession (tokens st)) = map scope (tokens st) \<and>
   map (\<lambda>s. (stored_label (stored_account s), stored_acc_id (stored_account s)))
       (map storedSession (tokens st)) =
     map (\<lambda>t. (Some (label (account t)), acc_id (account t))) (tokens st) \<and>
   keychain (storeTokenData env
      (st\<lparr>tokens := map (\<lambda>t. t\<lparr>accessToken := a t, idToken := b t,
                                  expiresIn := c t, expiresAt := d t\<rparr>) (tokens st)\<rparr>)) =
     keychain (storeTokenData env st)"
  by (simp add: storeTokenData_def keychain_setToken_def storedSession_fields
      storedSession_ignores comp_def)

subsection \<open>Lookup by scope\<close>











subsection \<open>On-demand resolution\<close>








subsection \<open>Malformed and absent stored data\<close>




text \<open>
  Claim C10. When the keychain has no text at the reconciliation check: with local
  sessions, the token list and the timer map are emptied, no timer stays armed (the armed
  timers being those of the map), and exactly one event is fired, which reports every
  local session as removed; the keychain is not written and no refresh is called. With no
  local session the state is unchanged, so no event is fired.
\<close>

theorem checkForUpdates_absent:
  "keychain st = None \<Longrightarrow>
     (tokens st \<noteq> [] \<longrightarrow>
        tokens (checkForUpdates env st) = [] \<and>
        refreshTimeouts (checkForUpdates env st) = [] \<and>
        (timer_inv st \<longrightarrow> timers (checkForUpdates env st) = []) \<and>
        events (checkForUpdates env st) =
          events st @ [\<lparr>added = [], removed = map convertToSessionSync (tokens st), changed = []\<rparr>] \<and>
        keychain (checkForUpdates env st) = None \<and>
        refreshCalls (checkForUpdates env st) = refreshCalls st) \<and>
     (tokens st = [] \<longrightarrow> checkForUpdates env st = st)"
proof -
  assume k: "keychain st = None"
  have e: "checkForUpdates env st = st" if "tokens st = []"
    using k that by (simp add: checkForUpdates_def keychain_getToken_def truthy_def)
  have n: "checkForUpdates env st =
      onDidChangeSessions_fire
        \<lparr>added = [], removed = map convertToSessionSync (tokens st), changed = []\<rparr>
        (clearAllTimeouts (st\<lparr>tokens := []\<rparr>))" if "tokens st \<noteq> []"
    using k that by (simp add: checkForUpdates_def keychain_getToken_def truthy_def)
  have t: "timers (clearAllTimeouts (st\<lparr>tokens := []\<rparr>)) = []" if "timer_inv st"
    using clearAllTimeouts_none_left[OF that, where ts="[]" and k="keychain st"] by simp
  show ?thesis
    using e n t k by (simp add: onDidChangeSessions_fire_def)
qed

theorem checkForUpdates_absent_witness:
  "tokens (checkForUpdates offline (garbled\<lparr>keychain := None\<rparr>)) = [] \<and>
   timers (checkForUpdates offline (garbled\<lparr>keychain := None\<rparr>)) = [] \<and>
   events (checkForUpdates offline (garbled\<lparr>keychain := None\<rparr>)) =
     [\<lparr>added = [],
       removed = [convertToSessionSync tokenA, convertToSessionSync tokenB],
       changed = []\<rparr>] \<and>
   checkForUpdates offline (built 0 None) = built 0 None"
proof -
  have k: "keychain (garbled\<lparr>keychain := None\<rparr>) = None" by simp
  have i: "timer_inv (garbled\<lparr>keychain := None\<rparr>)"
    using garbled_inv by (simp add: timer_inv_def)
  have ne: "tokens (garbled\<lparr>keychain := None\<rparr>) \<noteq> []"
    by (simp add: garbled_def twoSessions_def)
  have k0: "keychain (built 0 None) = None" by (simp add: built_def)
  have e0: "tokens (built 0 None) = []" by (simp add: built_def)
  from checkForUpdates_absent[OF k, of offline] checkForUpdates_absent[OF k0, of offline] i ne e0
  show ?thesis by (simp add: garbled_def twoSessions_def)
qed

subsection \<open>Failure of a background refresh\<close>

text \<open>
  Claim C1, against the code. \<^verbatim>\<open>refreshToken\<close> rethrows every failure of the provider
  under the message \<^verbatim>\<open>Refreshing token failed\<close>, which is never the message the callers
  compare with \<^verbatim>\<open>REFRESH_NETWORK_FAILURE\<close>. So whatever the error of the provider, a
  network error included, the timer callback of \<^verbatim>\<open>setToken\<close> removes the session and
  fires it as removed, and the startup restore removes the session: the retry controller
  is never entered.
\<close>

theorem refresh_failure_removes_session:
  "client_refresh env (now st) rt = Inl err \<Longrightarrow>
     fst (refreshToken env rt scp sid st) = Inl ''Refreshing token failed'' \<and>
     fst (refreshToken env rt scp sid st) \<noteq> Inl REFRESH_NETWORK_FAILURE \<and>
     (\<forall>token. refreshTok token = rt \<longrightarrow>
        runCallback env (ProactiveRefresh token scp) st =
          onDidChangeSessions_fire
            \<lparr>added = [], removed = [convertToSessionSync token], changed = []\<rparr>
            (snd (removeSession env (sessionId token)
                    (st\<lparr>refreshCalls := refreshCalls st @ [(rt, scp, sessionId token)]\<rparr>)))) \<and>
     (\<forall>s. stored_refreshToken s = rt \<longrightarrow> rt \<noteq> [] \<longrightarrow>
        restoreSessions env [s] st =
          snd (removeSession env (stored_id s)
                 (st\<lparr>refreshCalls := refreshCalls st @ [(rt, stored_scope s, stored_id s)]\<rparr>)))"
proof -
  assume f: "client_refresh env (now st) rt = Inl err"
  have r: "refreshToken env rt scp' sid' st =
     (Inl ''Refreshing token failed'', st\<lparr>refreshCalls := refreshCalls st @ [(rt, scp', sid')]\<rparr>)"
    for scp' sid'
    using f by (rule refreshToken_failure)
  show ?thesis
    by (simp add: r runCallback_def failure_message_not_network)
qed

lemma due_state:
  "clearTimeout 0 (advanceClock 270000 twoSessions) =
     twoSessions\<lparr>now := 271000, timers := []\<rparr>"
  by (simp add: clearTimeout_def advanceClock_def twoSessions_def)

lemma fire_due:
  "fireTimer env 0 (advanceClock 270000 twoSessions) =
     runCallback env (ProactiveRefresh tokenA ''api openid'')
       (twoSessions\<lparr>now := 271000, timers := []\<rparr>)"
  unfolding fireTimer_def due_state[symmetric]
  by (simp add: advanceClock_def twoSessions_def)

theorem refresh_failure_removes_session_witness:
  "client_refresh offline 271000 ''rtA'' = Inl REFRESH_NETWORK_FAILURE \<and>
   tokens (fireTimer offline 0 (advanceClock 270000 twoSessions)) = [tokenB] \<and>
   timers (fireTimer offline 0 (advanceClock 270000 twoSessions)) = [] \<and>
   events (fireTimer offline 0 (advanceClock 270000 twoSessions)) =
     [\<lparr>added = [], removed = [convertToSessionSync tokenA], changed = []\<rparr>]"
proof -
  let ?st = "twoSessions\<lparr>now := 271000, timers := []\<rparr>"
  have f: "client_refresh offline (now ?st) ''rtA'' = Inl ''Network failure''"
    by (simp add: offline_def)
  have rt: "refreshTok tokenA = ''rtA''" by (simp add: tokenA_def)
  from refresh_failure_removes_session[OF f, of "''api openid''"] rt
  have c: "runCallback offline (ProactiveRefresh tokenA ''api openid'') ?st =
          onDidChangeSessions_fire
            \<lparr>added = [], removed = [convertToSessionSync tokenA], changed = []\<rparr>
            (snd (removeSession offline (sessionId tokenA)
                    (?st\<lparr>refreshCalls := refreshCalls ?st @
                          [(''rtA'', ''api openid'', sessionId tokenA)]\<rparr>)))"
    by blast
  have s: "sessionId tokenA = ''A''" "sessionId tokenB = ''B''"
    by (simp_all add: tokenA_def tokenB_def)
  have t: "tokens (snd (removeSession offline ''A''
                    (?st\<lparr>refreshCalls := refreshCalls ?st @ [(''rtA'', ''api openid'', ''A'')]\<rparr>)))
             = [tokenB]"
    by (simp add: removeSession_def removeInMemorySessionData_def twoSessions_def s
        case_prod_beta)
  have m: "timers (snd (removeSession offline ''A''
                    (?st\<lparr>refreshCalls := refreshCalls ?st @ [(''rtA'', ''api openid'', ''A'')]\<rparr>)))
             = []"
    by (simp add: removeSession_def removeInMemorySessionData_def twoSessions_def s
        case_prod_beta clearSessionTimeout_timers)
  have e: "events (snd (removeSession offline ''A''
                    (?st\<lparr>refreshCalls := refreshCalls ?st @ [(''rtA'', ''api openid'', ''A'')]\<rparr>)))
             = []"
    by (simp add: removeSession_def removeInMemorySessionData_def twoSessions_def s
        case_prod_beta)
  show ?thesis
    unfolding fire_due c s
    using t m e by (simp add: offline_def REFRESH_NETWORK_FAILURE_def)
qed

subsection \<open>The retry controller\<close>

lemma pollForReconnect_timers:
  "timers (pollForReconnect sid rt scp st) =
     timers (clearSessionTimeout sid st) @
       [(nextHandle st, now st + 1800000, PollRefresh sid rt scp)]"
  by (simp add: pollForReconnect_def arm_eq)

lemma clearSessionTimeout_timers_cong:
  "timers st' = timers st \<Longrightarrow> refreshTimeouts st' = refreshTimeouts st \<Longrightarrow>
   timers (clearSessionTimeout sid st') = timers (clearSessionTimeout sid st)"
  by (simp add: clearSessionTimeout_timers split: option.splits)

lemma handleRefreshNetworkError_timers:
  "attempts \<noteq> 3 \<Longrightarrow>
   timers (handleRefreshNetworkError sid rt scp attempts aw st) =
     timers (clearSessionTimeout sid st) @
       [(nextHandle st,
         now st + (if 1000 * (5 * int attempts * int attempts) < 1 \<or>
                      2147483647 < 1000 * (5 * int attempts * int attempts) then 1
                   else 1000 * (5 * int attempts * int attempts)),
         RetryRefresh sid rt scp attempts aw)]"
proof -
  assume n3: "attempts \<noteq> 3"
  define st1 where "st1 =
     (if attempts = 1 then
        (case findIndex (\<lambda>token. sessionId token = sid) (tokens st) of
           None \<Rightarrow> st
         | Some i \<Rightarrow>
             (let token = (tokens st ! i)\<lparr>accessToken := None\<rparr>
              in onDidChangeSessions_fire
                   \<lparr>added = [], removed = [], changed = [convertToSessionSync token]\<rparr>
                   (st\<lparr>tokens := (tokens st)[i := token]\<rparr>)))
      else st)"
  have same: "timers st1 = timers st" "refreshTimeouts st1 = refreshTimeouts st"
    "nextHandle st1 = nextHandle st" "now st1 = now st"
    by (simp_all add: st1_def Let_def split: option.splits)
  have eq: "handleRefreshNetworkError sid rt scp attempts aw st =
      (case setTimeout (RetryRefresh sid rt scp attempts aw)
              (1000 * (5 * int attempts * int attempts)) (clearSessionTimeout sid st1) of
        (h, st') \<Rightarrow> st'\<lparr>refreshTimeouts := AList.update sid h (refreshTimeouts st')\<rparr>)"
    using n3 by (simp add: handleRefreshNetworkError_def Let_def st1_def)
  show ?thesis
    unfolding eq arm_eq
    by (simp add: same clearSessionTimeout_timers_cong[OF same(1,2)])
qed


lemma fireTimer_due:
  "map_of (timers st) h = Some (due, cb) \<Longrightarrow> due \<le> now st \<Longrightarrow>
   fireTimer env h st = runCallback env cb (clearTimeout h st)"
  by (simp add: fireTimer_def)







subsection \<open>One timer per session\<close>

lemma setToken_timers:
  "timers (setToken env token scp st) =
     timers (clearSessionTimeout (sessionId token) st) @
     (case expiresIn token of
        None \<Rightarrow> []
      | Some e \<Rightarrow>
          if e = 0 then []
          else [(nextHandle st,
                 now st + (if 1000 * (e - 30) < 1 \<or> 2147483647 < 1000 * (e - 30) then 1
                           else 1000 * (e - 30)),
                 ProactiveRefresh token scp)])"
  by (simp add: setToken_def Let_def arm_eq clearSessionTimeout_timers split: option.splits)

lemma setToken_timersOf:
  assumes "timer_inv st"
  shows "timersOf (sessionId token) (setToken env token scp st) =
     (case expiresIn token of
        None \<Rightarrow> []
      | Some e \<Rightarrow>
          if e = 0 then []
          else [(nextHandle st,
                 now st + (if 1000 * (e - 30) < 1 \<or> 2147483647 < 1000 * (e - 30) then 1
                           else 1000 * (e - 30)),
                 ProactiveRefresh token scp)])"
proof -
  have "filter (\<lambda>t. callback_session (snd (snd t)) = sessionId token)
          (timers (clearSessionTimeout (sessionId token) st)) = []"
    using timer_inv_clearSessionTimeout(2)[OF assms, of "sessionId token"]
    by (simp add: timersOf_def)
  then show ?thesis
    by (simp add: timersOf_def setToken_timers split: option.splits)
qed

text \<open>
  Claim C4. In every state a run of the service can reach, a session has at most one
  timer armed in the runtime. The invariant behind it (every armed timer is the one the
  map records for its session, under distinct handles) holds when the service is built
  and is kept by every operation: \<^verbatim>\<open>setToken\<close>, \<^verbatim>\<open>handleRefreshNetworkError\<close>,
  \<^verbatim>\<open>pollForReconnect\<close>, \<^verbatim>\<open>removeSession\<close>, \<^verbatim>\<open>initialize\<close> and every action of a run.
  After \<^verbatim>\<open>setToken\<close> the timers of the session are the new proactive refresh alone when
  \<^verbatim>\<open>expiresIn\<close> is truthy, and none otherwise: a timer the session had is replaced. After
  \<^verbatim>\<open>handleRefreshNetworkError\<close> has armed a retry, and after \<^verbatim>\<open>pollForReconnect\<close>, the
  timers of the session are the new retry, or the new poll, alone.
\<close>

theorem one_timer_per_session:
  "(\<forall>sid. length (timersOf sid (run env acts (initialize env (built t blob)))) \<le> 1) \<and>
   (timer_inv st \<longrightarrow>
      (\<forall>sid. length (timersOf sid st) \<le> 1) \<and>
      timer_inv (setToken env token scp st) \<and>
      timersOf (sessionId token) (setToken env token scp st) =
        (case expiresIn token of
           None \<Rightarrow> []
         | Some e \<Rightarrow>
             if e = 0 then []
             else [(nextHandle st,
                    now st + (if 1000 * (e - 30) < 1 \<or> 2147483647 < 1000 * (e - 30) then 1
                              else 1000 * (e - 30)),
                    ProactiveRefresh token scp)]) \<and>
      timer_inv (handleRefreshNetworkError sid' rt scp attempts aw st) \<and>
      (attempts \<noteq> 3 \<longrightarrow>
         timersOf sid' (handleRefreshNetworkError sid' rt scp attempts aw st) =
           [(nextHandle st,
             now st + (if 1000 * (5 * int attempts * int attempts) < 1 \<or>
                          2147483647 < 1000 * (5 * int attempts * int attempts) then 1
                       else 1000 * (5 * int attempts * int attempts)),
             RetryRefresh sid' rt scp attempts aw)]) \<and>
      timer_inv (pollForReconnect sid' rt scp st) \<and>
      timersOf sid' (pollForReconnect sid' rt scp st) =
        [(nextHandle st, now st + 1800000, PollRefresh sid' rt scp)] \<and>
      timer_inv (snd (removeSession env sid' st)) \<and>
      timer_inv (initialize env st) \<and>
      timer_inv (exec env act st) \<and>
      timer_inv (run env acts st))"
proof (intro conjI allI impI)
  fix sid
  have "timer_inv (run env acts (initialize env (built t blob)))"
    by (intro timer_inv_run timer_inv_initialize timer_inv_built)
  then show "length (timersOf sid (run env acts (initialize env (built t blob)))) \<le> 1"
    by (rule timer_inv_at_most_one)
next
  fix sid assume "timer_inv st"
  then show "length (timersOf sid st) \<le> 1" by (rule timer_inv_at_most_one)
next
  assume "timer_inv st"
  then show "timer_inv (setToken env token scp st)" by (rule timer_inv_setToken)
next
  assume "timer_inv st"
  then show "timersOf (sessionId token) (setToken env token scp st) =
        (case expiresIn token of
           None \<Rightarrow> []
         | Some e \<Rightarrow>
             if e = 0 then []
             else [(nextHandle st,
                    now st + (if 1000 * (e - 30) < 1 \<or> 2147483647 < 1000 * (e - 30) then 1
                              else 1000 * (e - 30)),
                    ProactiveRefresh token scp)])"
    by (rule setToken_timersOf)
next
  assume "timer_inv st"
  then show "timer_inv (handleRefreshNetworkError sid' rt scp attempts aw st)"
    by (rule timer_inv_handleRefreshNetworkError)
next
  assume inv: "timer_inv st" and n3: "attempts \<noteq> 3"
  have "filter (\<lambda>t. callback_session (snd (snd t)) = sid') (timers (clearSessionTimeout sid' st)) = []"
    using timer_inv_clearSessionTimeout(2)[OF inv, of sid'] by (simp add: timersOf_def)
  then show "timersOf sid' (handleRefreshNetworkError sid' rt scp attempts aw st) =
           [(nextHandle st,
             now st + (if 1000 * (5 * int attempts * int attempts) < 1 \<or>
                          2147483647 < 1000 * (5 * int attempts * int attempts) then 1
                       else 1000 * (5 * int attempts * int attempts)),
             RetryRefresh sid' rt scp attempts aw)]"
    by (simp add: timersOf_def handleRefreshNetworkError_timers[OF n3])
next
  assume "timer_inv st"
  then show "timer_inv (pollForReconnect sid' rt scp st)" by (rule timer_inv_pollForReconnect)
next
  assume inv: "timer_inv st"
  have "filter (\<lambda>t. callback_session (snd (snd t)) = sid') (timers (clearSessionTimeout sid' st)) = []"
    using timer_inv_clearSessionTimeout(2)[OF inv, of sid'] by (simp add: timersOf_def)
  then show "timersOf sid' (pollForReconnect sid' rt scp st) =
        [(nextHandle st, now st + 1800000, PollRefresh sid' rt scp)]"
    by (simp add: timersOf_def pollForReconnect_timers)
next
  assume "timer_inv st"
  then show "timer_inv (snd (removeSession env sid' st))" by (rule timer_inv_removeSession)
next
  assume "timer_inv st"
  then show "timer_inv (initialize env st)" by (rule timer_inv_initialize)
next
  assume "timer_inv st"
  then show "timer_inv (exec env act st)" by (rule timer_inv_exec)
next
  assume "timer_inv st"
  then show "timer_inv (run env acts st)" by (rule timer_inv_run)
qed

theorem one_timer_per_session_witness:
  "timersOf ''A'' twoSessions = [(0, 271000, ProactiveRefresh tokenA ''api openid'')] \<and>
   timersOf ''A'' (setToken offline tokenA ''api openid'' twoSessions) =
     [(1, 271000, ProactiveRefresh tokenA ''api openid'')] \<and>
   timer_inv (setToken offline tokenA ''api openid'' twoSessions)"
proof -
  have a: "timersOf ''A'' twoSessions = [(0, 271000, ProactiveRefresh tokenA ''api openid'')]"
    by (simp add: timersOf_def twoSessions_def tokenA_def)
  have s: "sessionId tokenA = ''A''" by (simp add: tokenA_def)
  have e: "expiresIn tokenA = Some 300" by (simp add: tokenA_def)
  have n: "nextHandle twoSessions = 1" "now twoSessions = 1000" by (simp_all add: twoSessions_def)
  from one_timer_per_session[of offline "[]" 0 None twoSessions tokenA "''api openid''"]
    twoSessions_inv
  have "timersOf (sessionId tokenA) (setToken offline tokenA ''api openid'' twoSessions) =
        (case expiresIn tokenA of
           None \<Rightarrow> []
         | Some e \<Rightarrow>
             if e = 0 then []
             else [(nextHandle twoSessions,
                    now twoSessions +
                      (if 1000 * (e - 30) < 1 \<or> 2147483647 < 1000 * (e - 30) then 1
                       else 1000 * (e - 30)),
                    ProactiveRefresh tokenA ''api openid'')])"
    and i: "timer_inv (setToken offline tokenA ''api openid'' twoSessions)"
    by blast+
  then have b: "timersOf ''A'' (setToken offline tokenA ''api openid'' twoSessions) =
     [(1, 271000, ProactiveRefresh tokenA ''api openid'')]"
    by (simp add: s e n)
  from a b i show ?thesis by simp
qed

subsection \<open>Effects of the operations; timers only leave the runtime or are newly issued\<close>

lemma setToken_fields [simp]:
  "now (setToken env token scp st) = now st"
  "events (setToken env token scp st) = events st"
  "refreshCalls (setToken env token scp st) = refreshCalls st"
  by (simp_all add: setToken_def Let_def arm_eq split: option.splits)

lemma removeInMemorySessionData_fields [simp]:
  "now (snd (removeInMemorySessionData sid st)) = now st"
  "events (snd (removeInMemorySessionData sid st)) = events st"
  "refreshCalls (snd (removeInMemorySessionData sid st)) = refreshCalls st"
  "keychain (snd (removeInMemorySessionData sid st)) = keychain st"
  "nextHandle (snd (removeInMemorySessionData sid st)) = nextHandle st"
  by (simp_all add: removeInMemorySessionData_def split: option.splits)

lemma removeSession_fields [simp]:
  "now (snd (removeSession env sid st)) = now st"
  "events (snd (removeSession env sid st)) = events st"
  "refreshCalls (snd (removeSession env sid st)) = refreshCalls st"
  "nextHandle (snd (removeSession env sid st)) = nextHandle st"
  by (simp_all add: removeSession_def case_prod_beta)

lemma pollForReconnect_fields [simp]:
  "tokens (pollForReconnect sid rt scp st) = tokens st"
  "now (pollForReconnect sid rt scp st) = now st"
  "events (pollForReconnect sid rt scp st) = events st"
  "refreshCalls (pollForReconnect sid rt scp st) = refreshCalls st"
  "keychain (pollForReconnect sid rt scp st) = keychain st"
  by (simp_all add: pollForReconnect_def arm_eq)

lemma didNotSucceedOnRetry_fields [simp]:
  "now (didNotSucceedOnRetry aw st) = now st"
  "events (didNotSucceedOnRetry aw st) = events st"
  "refreshCalls (didNotSucceedOnRetry aw st) = refreshCalls st"
  "keychain (didNotSucceedOnRetry aw st) = keychain st"
  by (simp_all add: didNotSucceedOnRetry_def split: awaiting.splits)

lemma handleRefreshNetworkError_fields [simp]:
  "now (handleRefreshNetworkError sid rt scp attempts aw st) = now st"
  "refreshCalls (handleRefreshNetworkError sid rt scp attempts aw st) = refreshCalls st"
  "keychain (handleRefreshNetworkError sid rt scp attempts aw st) = keychain st"
  by (simp_all add: handleRefreshNetworkError_def Let_def arm_eq split: option.splits)

lemma refreshToken_fields [simp]:
  "now (snd (refreshToken env rt scp sid st)) = now st"
  "events (snd (refreshToken env rt scp sid st)) = events st"
  "refreshCalls (snd (refreshToken env rt scp sid st)) = refreshCalls st @ [(rt, scp, sid)]"
  by (simp_all add: refreshToken_def Let_def split: sum.splits)

lemma runCallback_refreshCalls:
  "\<exists>rt scp. refreshCalls (runCallback env cb st) =
     refreshCalls st @ [(rt, scp, callback_session cb)]"
  by (cases cb) (auto simp: runCallback_def case_prod_beta split: sum.splits)

lemma timersGrow_refl [simp]: "timersGrow st st"
  by (simp add: timersGrow_def list_all_iff)

lemma timersGrow_trans: "timersGrow a b \<Longrightarrow> timersGrow b c \<Longrightarrow> timersGrow a c"
  by (fastforce simp: timersGrow_def list_all_iff)

lemma timersGrow_cong:
  "timers st' = timers st \<Longrightarrow> nextHandle st' = nextHandle st \<Longrightarrow> timersGrow st st'"
  by (simp add: timersGrow_def list_all_iff)

lemma timersGrow_clearTimeout: "timersGrow st (clearTimeout h st)"
  by (simp add: timersGrow_def list_all_iff)

lemma timersGrow_clearSessionTimeout: "timersGrow st (clearSessionTimeout sid st)"
  by (simp add: timersGrow_def list_all_iff clearSessionTimeout_timers split: option.splits)

lemma timersGrow_clear_arm:
  "timersGrow st
     (case setTimeout cb d (clearSessionTimeout sid st) of
        (h, st') \<Rightarrow> st'\<lparr>refreshTimeouts := AList.update sid h (refreshTimeouts st')\<rparr>)"
  by (auto simp: arm_eq timersGrow_def list_all_iff clearSessionTimeout_timers
      split: option.splits)

lemma timersGrow_step:
  "timers st1 = timers st \<Longrightarrow> nextHandle st1 = nextHandle st \<Longrightarrow>
   timersGrow st1 st' \<Longrightarrow> timersGrow st st'"
  by (simp add: timersGrow_def)

lemma timersGrow_pollForReconnect: "timersGrow st (pollForReconnect sid rt scp st)"
  unfolding pollForReconnect_def by (rule timersGrow_clear_arm)

lemma timersGrow_setToken: "timersGrow st (setToken env token scp st)"
proof -
  define st1 where "st1 =
     (case findIndex (\<lambda>t. sessionId t = sessionId token) (tokens st) of
        Some i \<Rightarrow> st\<lparr>tokens := take i (tokens st) @ [token] @ drop (Suc i) (tokens st)\<rparr>
      | None \<Rightarrow> st\<lparr>tokens := tokens st @ [token]\<rparr>)"
  have s: "timers st1 = timers st" "nextHandle st1 = nextHandle st"
    by (simp_all add: st1_def split: option.splits)
  have g: "timersGrow st1 (setToken env token scp st)"
    unfolding setToken_def Let_def st1_def[symmetric]
    by (auto simp: timersGrow_def list_all_iff arm_eq clearSessionTimeout_timers
        split: option.splits)
  show ?thesis by (rule timersGrow_step[OF s g])
qed

lemma timersGrow_refreshToken: "timersGrow st (snd (refreshToken env rt scp sid st))"
proof (cases "client_refresh env (now st) rt")
  case (Inl err)
  then show ?thesis by (simp add: refreshToken_failure timersGrow_def list_all_iff)
next
  case (Inr ts)
  have "timersGrow (st\<lparr>refreshCalls := refreshCalls st @ [(rt, scp, sid)]\<rparr>)
          (snd (refreshToken env rt scp sid st))"
    by (simp add: refreshToken_success[OF Inr] timersGrow_setToken)
  then show ?thesis by (rule timersGrow_step[rotated 2]) simp_all
qed

lemma timersGrow_removeSession: "timersGrow st (snd (removeSession env sid st))"
  by (auto simp: removeSession_def removeInMemorySessionData_def case_prod_beta timersGrow_def
      list_all_iff clearSessionTimeout_timers split: option.splits)

lemma timersGrow_didNotSucceedOnRetry: "timersGrow st (didNotSucceedOnRetry aw st)"
proof (cases aw)
  case (FromSetToken token)
  then show ?thesis by (simp add: didNotSucceedOnRetry_def timersGrow_pollForReconnect)
next
  case (FromInitialize s)
  show ?thesis
    unfolding FromInitialize didNotSucceedOnRetry_def awaiting.case
    by (rule timersGrow_step[rotated 2, OF timersGrow_pollForReconnect]) simp_all
qed

lemma timersGrow_handleRefreshNetworkError:
  "timersGrow st (handleRefreshNetworkError sid rt scp attempts aw st)"
proof (cases "attempts = 3")
  case True
  then show ?thesis
    by (simp add: handleRefreshNetworkError_def timersGrow_didNotSucceedOnRetry)
next
  case False
  define st1 where "st1 =
     (if attempts = 1 then
        (case findIndex (\<lambda>token. sessionId token = sid) (tokens st) of
           None \<Rightarrow> st
         | Some i \<Rightarrow>
             (let token = (tokens st ! i)\<lparr>accessToken := None\<rparr>
              in onDidChangeSessions_fire
                   \<lparr>added = [], removed = [], changed = [convertToSessionSync token]\<rparr>
                   (st\<lparr>tokens := (tokens st)[i := token]\<rparr>)))
      else st)"
  have s: "timers st1 = timers st" "nextHandle st1 = nextHandle st"
    by (simp_all add: st1_def Let_def split: option.splits)
  have eq: "handleRefreshNetworkError sid rt scp attempts aw st =
      (case setTimeout (RetryRefresh sid rt scp attempts aw)
              (1000 * (5 * int attempts * int attempts)) (clearSessionTimeout sid st1) of
        (h, st') \<Rightarrow> st'\<lparr>refreshTimeouts := AList.update sid h (refreshTimeouts st')\<rparr>)"
    using False by (simp add: handleRefreshNetworkError_def Let_def st1_def)
  show ?thesis
    unfolding eq by (rule timersGrow_step[OF s timersGrow_clear_arm])
qed

lemma timersGrow_runCallback: "timersGrow st (runCallback env cb st)"
proof -
  have r: "timersGrow st (snd (refreshToken env rt scp sid st))" for rt scp sid
    by (rule timersGrow_refreshToken)
  have f: "timersGrow a (onDidChangeSessions_fire ev a)" for a ev
    by (rule timersGrow_cong) simp_all
  show ?thesis
  proof (cases cb)
    case (ProactiveRefresh token scp)
    show ?thesis
      unfolding ProactiveRefresh runCallback_def callback.case case_prod_beta
      by (auto split: sum.splits
          intro: timersGrow_trans[OF r] timersGrow_trans[OF r f]
            timersGrow_trans[OF r timersGrow_handleRefreshNetworkError]
            timersGrow_trans[OF r timersGrow_trans[OF timersGrow_removeSession f]])
  next
    case (RetryRefresh sid rt scp attempts aw)
    show ?thesis
      unfolding RetryRefresh runCallback_def callback.case case_prod_beta
      by (auto split: sum.splits
          intro: r timersGrow_trans[OF r timersGrow_handleRefreshNetworkError])
  next
    case (PollRefresh sid rt scp)
    show ?thesis
      unfolding PollRefresh runCallback_def callback.case case_prod_beta
      by (auto split: sum.splits intro: r timersGrow_trans[OF r timersGrow_pollForReconnect])
  qed
qed

subsection \<open>Removing a session\<close>

lemma findIndex_None: "findIndex P xs = None \<longleftrightarrow> find P xs = None"
  by (induction xs) auto

lemma findIndex_Some:
  "findIndex P xs = Some i \<Longrightarrow>
     i < length xs \<and> P (xs ! i) \<and> find P xs = Some (xs ! i) \<and>
     take i xs @ drop (Suc i) xs = remove1 (xs ! i) xs \<and>
     (\<forall>j < i. \<not> P (xs ! j))"
proof (induction xs arbitrary: i)
  case Nil
  then show ?case by simp
next
  case (Cons x xs)
  show ?case
  proof (cases "P x")
    case True
    then show ?thesis using Cons.prems by auto
  next
    case False
    then obtain j where j: "findIndex P xs = Some j" "i = Suc j"
      using Cons.prems by auto
    from Cons.IH[OF j(1)] have ih: "j < length xs" "P (xs ! j)" "find P xs = Some (xs ! j)"
      "take j xs @ drop (Suc j) xs = remove1 (xs ! j) xs" "\<forall>k < j. \<not> P (xs ! k)"
      by simp_all
    have "x \<noteq> xs ! j" using False ih(2) by auto
    then show ?thesis
      using False ih j(2) by (auto simp: less_Suc_eq_0_disj)
  qed
qed

lemma removeInMemorySessionData_result:
  "fst (removeInMemorySessionData sid st) = find (\<lambda>t. sessionId t = sid) (tokens st)"
  "tokens (snd (removeInMemorySessionData sid st)) =
     (case find (\<lambda>t. sessionId t = sid) (tokens st) of
        None \<Rightarrow> tokens st
      | Some t \<Rightarrow> remove1 t (tokens st))"
proof -
  show "fst (removeInMemorySessionData sid st) = find (\<lambda>t. sessionId t = sid) (tokens st)"
  proof (cases "findIndex (\<lambda>t. sessionId t = sid) (tokens st)")
    case None
    then have "find (\<lambda>t. sessionId t = sid) (tokens st) = None"
      by (simp add: findIndex_None)
    then show ?thesis using None by (simp add: removeInMemorySessionData_def)
  next
    case (Some i)
    then show ?thesis
      using findIndex_Some[OF Some] by (simp add: removeInMemorySessionData_def)
  qed
  show "tokens (snd (removeInMemorySessionData sid st)) =
     (case find (\<lambda>t. sessionId t = sid) (tokens st) of
        None \<Rightarrow> tokens st
      | Some t \<Rightarrow> remove1 t (tokens st))"
  proof (cases "findIndex (\<lambda>t. sessionId t = sid) (tokens st)")
    case None
    then have "find (\<lambda>t. sessionId t = sid) (tokens st) = None"
      by (simp add: findIndex_None)
    then show ?thesis using None by (simp add: removeInMemorySessionData_def)
  next
    case (Some i)
    then show ?thesis
      using findIndex_Some[OF Some] by (simp add: removeInMemorySessionData_def)
  qed
qed

lemma removeSession_result:
  "fst (removeSession env sid st) =
     map_option convertToSessionSync (find (\<lambda>t. sessionId t = sid) (tokens st))"
  "tokens (snd (removeSession env sid st)) =
     (case find (\<lambda>t. sessionId t = sid) (tokens st) of
        None \<Rightarrow> tokens st
      | Some t \<Rightarrow> remove1 t (tokens st))"
  by (simp_all add: removeSession_def case_prod_beta removeInMemorySessionData_result)

lemma removeSession_timers:
  "timers (snd (removeSession env sid st)) = timers (clearSessionTimeout sid st)"
  "map_of (refreshTimeouts (snd (removeSession env sid st))) =
     (map_of (refreshTimeouts st))(sid := None)"
  by (simp_all add: removeSession_def removeInMemorySessionData_def case_prod_beta
      clearSessionTimeout_timers clearSessionTimeout_map split: option.splits)

lemma find_distinct_removed:
  assumes "distinct (map f xs)" and "find (\<lambda>t. f t = k) xs = Some t"
  shows "k \<notin> f ` set (remove1 t xs)"
proof -
  have t: "t \<in> set xs" "f t = k"
    using assms(2) by (auto simp: find_Some_iff)
  have d: "distinct xs" and i: "inj_on f (set xs)"
    using assms(1) by (simp_all add: distinct_map)
  have "set (remove1 t xs) = set xs - {t}" using d by simp
  then show ?thesis using t i by (auto dest: inj_onD)
qed

lemma find_None_notin: "find (\<lambda>t. f t = k) xs = None \<Longrightarrow> k \<notin> f ` set xs"
  by (auto simp: find_None_iff)

lemma noEarlierTimer_grow:
  "noEarlierTimer sid n st \<Longrightarrow> timersGrow st st' \<Longrightarrow> noEarlierTimer sid n st'"
  by (fastforce simp: noEarlierTimer_def timersGrow_def list_all_iff)

lemma fireTimer_earlier:
  assumes "noEarlierTimer sid n st" and "h < n"
  shows "noEarlierTimer sid n (fireTimer env h st)"
    and "filter (\<lambda>c. snd (snd c) = sid) (refreshCalls (fireTimer env h st)) =
         filter (\<lambda>c. snd (snd c) = sid) (refreshCalls st)"
proof -
  have g: "timersGrow st (fireTimer env h st)"
    by (auto simp: fireTimer_def split: option.splits
        intro: timersGrow_trans[OF timersGrow_clearTimeout timersGrow_runCallback])
  show "noEarlierTimer sid n (fireTimer env h st)"
    using assms(1) g by (rule noEarlierTimer_grow)
  show "filter (\<lambda>c. snd (snd c) = sid) (refreshCalls (fireTimer env h st)) =
         filter (\<lambda>c. snd (snd c) = sid) (refreshCalls st)"
  proof (cases "map_of (timers st) h")
    case None
    then show ?thesis by (simp add: fireTimer_def)
  next
    case (Some dc)
    obtain due cb where dc: "dc = (due, cb)" by (cases dc)
    have "(h, due, cb) \<in> set (timers st)"
      using Some dc by (simp add: map_of_SomeD)
    then have ne: "callback_session cb \<noteq> sid"
      using assms by (auto simp: noEarlierTimer_def list_all_iff)
    obtain rt scp where
      "refreshCalls (runCallback env cb (clearTimeout h st)) =
         refreshCalls (clearTimeout h st) @ [(rt, scp, callback_session cb)]"
      using runCallback_refreshCalls by blast
    then show ?thesis using Some dc ne by (simp add: fireTimer_def)
  qed
qed

lemma clockRun_earlier:
  "noEarlierTimer sid n st \<Longrightarrow> clockRun n acts \<Longrightarrow>
   filter (\<lambda>c. snd (snd c) = sid) (refreshCalls (run env acts st)) =
     filter (\<lambda>c. snd (snd c) = sid) (refreshCalls st)"
proof (induction acts arbitrary: st)
  case Nil
  then show ?case by (simp add: run_def)
next
  case (Cons a acts)
  have r: "run env (a # acts) st = run env acts (exec env a st)" by (simp add: run_def)
  from Cons.prems(2) have rest: "clockRun n acts" by (simp add: clockRun_def)
  show ?case
  proof (cases a)
    case (TimerFires h)
    then have h: "h < n" using Cons.prems(2) by (simp add: clockRun_def)
    from fireTimer_earlier[OF Cons.prems(1) h, of env]
    have "noEarlierTimer sid n (exec env a st)"
      and "filter (\<lambda>c. snd (snd c) = sid) (refreshCalls (exec env a st)) =
           filter (\<lambda>c. snd (snd c) = sid) (refreshCalls st)"
      by (simp_all add: TimerFires)
    then show ?thesis using Cons.IH[OF _ rest] r by simp
  next
    case (ClockAdvances d)
    have "noEarlierTimer sid n (exec env a st)"
      using Cons.prems(1) by (simp add: ClockAdvances advanceClock_def noEarlierTimer_def)
    moreover have "refreshCalls (exec env a st) = refreshCalls st"
      by (simp add: ClockAdvances advanceClock_def)
    ultimately show ?thesis using Cons.IH[OF _ rest] r by simp
  qed (use Cons.prems(2) in \<open>simp_all add: clockRun_def\<close>)
qed

text \<open>
  Claim C5. \<^verbatim>\<open>removeSession(sessionId)\<close> returns the session of the first token with
  that id, or nothing when there is none, and takes that token out of the list, so that
  under unique session ids no token of that id is left. When it returns, no timer of
  the session is armed and the map has no entry for it. From then on, however the clock
  advances and whichever of the timers issued so far fire, no refresh is called for that
  session.
\<close>

theorem removeSession_cancels_timer:
  "timer_inv st \<Longrightarrow> removeSession env sid st = (r, st') \<Longrightarrow>
     r = map_option convertToSessionSync (find (\<lambda>t. sessionId t = sid) (tokens st)) \<and>
     tokens st' =
       (case find (\<lambda>t. sessionId t = sid) (tokens st) of
          None \<Rightarrow> tokens st
        | Some t \<Rightarrow> remove1 t (tokens st)) \<and>
     (distinct (map sessionId (tokens st)) \<longrightarrow> sid \<notin> sessionId ` set (tokens st')) \<and>
     timersOf sid st' = [] \<and>
     map_of (refreshTimeouts st') sid = None \<and>
     (\<forall>acts. clockRun (nextHandle st') acts \<longrightarrow>
        filter (\<lambda>c. snd (snd c) = sid) (refreshCalls (run env acts st')) =
          filter (\<lambda>c. snd (snd c) = sid) (refreshCalls st'))"
proof -
  assume inv: "timer_inv st" and rs: "removeSession env sid st = (r, st')"
  have r: "r = fst (removeSession env sid st)" and st': "st' = snd (removeSession env sid st)"
    using rs by simp_all
  have a: "r = map_option convertToSessionSync (find (\<lambda>t. sessionId t = sid) (tokens st))"
    unfolding r by (rule removeSession_result)
  have b: "tokens st' =
       (case find (\<lambda>t. sessionId t = sid) (tokens st) of
          None \<Rightarrow> tokens st
        | Some t \<Rightarrow> remove1 t (tokens st))"
    unfolding st' by (rule removeSession_result)
  have c: "sid \<notin> sessionId ` set (tokens st')" if "distinct (map sessionId (tokens st))"
  proof (cases "find (\<lambda>t. sessionId t = sid) (tokens st)")
    case None
    then show ?thesis using b find_None_notin[OF None] by simp
  next
    case (Some t)
    then show ?thesis using b find_distinct_removed[OF that Some] by simp
  qed
  have d: "timersOf sid st' = []"
    using timer_inv_clearSessionTimeout(2)[OF inv, of sid]
    by (simp add: timersOf_def st' removeSession_timers)
  have e: "map_of (refreshTimeouts st') sid = None"
    by (simp add: st' removeSession_timers)
  have "noEarlierTimer sid (nextHandle st') st'"
    using d by (auto simp: noEarlierTimer_def timersOf_def list_all_iff filter_empty_conv)
  then have f: "filter (\<lambda>c. snd (snd c) = sid) (refreshCalls (run env acts st')) =
          filter (\<lambda>c. snd (snd c) = sid) (refreshCalls st')"
    if "clockRun (nextHandle st') acts" for acts
    using that by (rule clockRun_earlier)
  show ?thesis
    apply (intro conjI allI impI)
         apply (rule a)
        apply (rule b)
       apply (erule c)
      apply (rule d)
     apply (rule e)
    apply (erule f)
    done
qed

lemma twoSessions_find_A: "find (\<lambda>t. sessionId t = ''A'') (tokens twoSessions) = Some tokenA"
  by (simp add: twoSessions_def tokenA_def)

lemma twoSessions_without_A: "remove1 tokenA (tokens twoSessions) = [tokenB]"
  by (simp add: twoSessions_def)

lemma twoSessions_removed_fields:
  "nextHandle (snd (removeSession offline ''A'' twoSessions)) = 1"
  "refreshCalls (snd (removeSession offline ''A'' twoSessions)) = []"
  by (simp_all add: twoSessions_def)

lemma clockRun_example: "clockRun 1 [ClockAdvances 300000, TimerFires 0]"
  by (simp add: clockRun_def)

lemma twoSessions_timer_fires:
  "refreshCalls (run offline [ClockAdvances 300000, TimerFires 0] twoSessions) =
     [(''rtA'', ''api openid'', ''A'')]"
  by (simp add: run_def advanceClock_def fireTimer_def twoSessions_def runCallback_def
      case_prod_beta tokenA_def split: sum.splits)

theorem removeSession_cancels_timer_witness:
  "fst (removeSession offline ''A'' twoSessions) = Some (convertToSessionSync tokenA) \<and>
   tokens (snd (removeSession offline ''A'' twoSessions)) = [tokenB] \<and>
   timersOf ''A'' (snd (removeSession offline ''A'' twoSessions)) = [] \<and>
   refreshCalls (run offline [ClockAdvances 300000, TimerFires 0] twoSessions) =
     [(''rtA'', ''api openid'', ''A'')] \<and>
   filter (\<lambda>c. snd (snd c) = ''A'')
     (refreshCalls (run offline [ClockAdvances 300000, TimerFires 0]
        (snd (removeSession offline ''A'' twoSessions)))) = []"
proof -
  let ?r = "fst (removeSession offline ''A'' twoSessions)"
  let ?st = "snd (removeSession offline ''A'' twoSessions)"
  have rs: "removeSession offline ''A'' twoSessions = (?r, ?st)" by simp
  note t = removeSession_cancels_timer[OF twoSessions_inv rs,
      unfolded twoSessions_find_A option.case option.map twoSessions_without_A
        twoSessions_removed_fields]
  from t have a: "?r = Some (convertToSessionSync tokenA)" by (elim conjE)
  from t have b: "tokens ?st = [tokenB]" by (elim conjE)
  from t have c: "timersOf ''A'' ?st = []" by (elim conjE)
  from t have "\<forall>acts. clockRun 1 acts \<longrightarrow>
        filter (\<lambda>c. snd (snd c) = ''A'') (refreshCalls (run offline acts ?st)) =
          filter (\<lambda>c. snd (snd c) = ''A'') []"
    by (elim conjE)
  then have d: "filter (\<lambda>c. snd (snd c) = ''A'')
     (refreshCalls (run offline [ClockAdvances 300000, TimerFires 0] ?st)) = []"
    using clockRun_example by simp
  from a b c twoSessions_timer_fires d show ?thesis by (intro conjI)
qed

subsection \<open>Reconciliation\<close>











lemma convertToken_id [simp]:
  "sid \<noteq> [] \<Longrightarrow> sessionId (convertToken t tokenSet scp (Some sid)) = sid"
  "scope (convertToken t tokenSet scp existingId) = scp"
  by (simp_all add: convertToken_def js_or_def)





























end
